theory Spec2Isabelle
  imports Complex_Main "HOL-Library.Sublist"
begin

text \<open>
  A model of \<open>App.tsx\<close>, the single component of the Kashmiri voice assistant: its
  React state and refs, the Web Audio objects the refs point to, the handlers
  \<open>startSession\<close> and \<open>stopSession\<close>, the callbacks of the live session, and the
  user interface handlers, each translated statement by statement; then the runs of the
  component, an invariant of its reachable states, and the properties of the session
  controller, the transcript history and the playback schedule.
\<close>

section \<open>Values of the JavaScript run time\<close>

text \<open>
  A JavaScript string is a sequence of UTF-16 code units; the transcripts of this
  application are Kashmiri text in Perso-Arabic script, so the code units are kept as
  numbers and not as 8-bit characters. \<open>str\<close> embeds an ASCII literal.
\<close>

type_synonym JsString = "nat list"

definition str :: "string \<Rightarrow> JsString" where
  "str cs = map of_char cs"

text \<open>
  \<open>String.prototype.trim\<close> removes the WhiteSpace and LineTerminator code points of
  ECMAScript from both ends: TAB, LF, VT, FF, CR, SP, NBSP, U+1680, U+2000 to U+200A,
  U+2028, U+2029, U+202F, U+205F, U+3000 and U+FEFF.
\<close>

definition isWhiteSpace :: "nat \<Rightarrow> bool" where
  "isWhiteSpace c =
     (c \<in> set [9, 10, 11, 12, 13, 32, 160, 5760, 8232, 8233, 8239, 8287, 12288, 65279]
      \<or> (8192 \<le> c \<and> c \<le> 8202))"

definition trim :: "JsString \<Rightarrow> JsString" where
  "trim t = rev (dropWhile isWhiteSpace (rev (dropWhile isWhiteSpace t)))"

text \<open>
  A value of type \<open>string | undefined\<close> is an option. It is truthy when it is a
  non-empty string; \<open>x || d\<close> is \<open>orElse x d\<close>; and \<open>s += x\<close> appends the text
  \<open>undefined\<close> when \<open>x\<close> is undefined.
\<close>

definition truthy :: "JsString option \<Rightarrow> bool" where
  "truthy x = (case x of None \<Rightarrow> False | Some t \<Rightarrow> t \<noteq> [])"

definition orElse :: "JsString option \<Rightarrow> JsString \<Rightarrow> JsString" where
  "orElse x d = (if truthy x then the x else d)"

definition toStr :: "JsString option \<Rightarrow> JsString" where
  "toStr x = (case x of None \<Rightarrow> str ''undefined'' | Some t \<Rightarrow> t)"

text \<open>
  A handler either returns or throws. State written before the throw stays written, so
  a handler yields its completion together with the state it leaves.
\<close>

datatype Completion = Returned | Threw

section \<open>Types of App.tsx\<close>

datatype AppMode = conversation | transcription

datatype Status = idle | connecting | listening | speaking | error | processing

datatype Speaker = user | ai

record TranscriptEntry =
  speaker :: Speaker
  "text" :: JsString

section \<open>Platform objects\<close>

text \<open>
  The Web Audio objects the component holds. An \<open>AudioBuffer\<close> has a frame count and a
  sample rate, and its \<open>duration\<close> attribute is their quotient. Times are real numbers:
  the rounding of IEEE doubles is not modelled.
\<close>

record AudioBuffer =
  frameCount :: nat
  sampleRate :: nat

definition duration :: "AudioBuffer \<Rightarrow> real" where
  "duration b = real (frameCount b) / real (sampleRate b)"

datatype ContextState = Suspended | Running | Closed

record AudioContext =
  ctxSampleRate :: nat
  state :: ContextState

text \<open>
  An \<open>AudioBufferSourceNode\<close>: the context that created it, its buffer, the time given
  to \<open>start\<close>, and whether \<open>start\<close> and \<open>stop\<close> have been called on it.
\<close>

record AudioBufferSourceNode =
  ownerContext :: nat
  buffer :: AudioBuffer
  startTime :: real
  started :: bool
  stopped :: bool

text \<open>Calls that leave the component, in the order they are made.\<close>

datatype Effect =
    ConsoleError
  | GetUserMedia
  | Connect AppMode
  | SessionClose
  | TrackStop
  | NodeDisconnect
  | GenerateContent

section \<open>The queue of history updates\<close>

text \<open>
  \<open>setTranscriptHistory\<close> is only ever called with an updater function,
  \<open>prev => [...prev, { speaker, text: ref.current.trim() }]\<close>, which reads the
  in-progress buffer of its speaker when it is run, not when it is passed. React queues
  an updater and runs it during the next render; as a fast path it may run the first
  updater of a component with no pending update at once and keep the result.
  \<open>Deferred sp\<close> is the queued function for speaker \<open>sp\<close>, \<open>Computed h\<close> an update
  whose next state \<open>h\<close> was computed when it was queued.
\<close>

datatype HistoryUpdate = Computed "TranscriptEntry list" | Deferred Speaker

section \<open>The component state\<close>

text \<open>
  The \<open>useState\<close> cells, the \<open>useRef\<close> cells, and the platform objects the refs
  point to. A ref to an audio context or a source node holds the index of the object in
  \<open>contexts\<close> or \<open>sources\<close>. \<open>sessionPromiseRef\<close> holds the session promise, which is
  identified by the \<open>mode\<close> its callbacks closed over; \<open>mediaStreamRef\<close> holds the
  number of tracks of the stream; the two capture nodes hold the index of their context.
\<close>

record AppState =
  mode :: AppMode
  status :: Status
  isRecording :: bool
  transcriptHistory :: "TranscriptEntry list"
  historyQueue :: "HistoryUpdate list"
  currentUserTranscript :: JsString
  currentAiTranscript :: JsString
  fileTranscription :: "JsString option"
  isProcessingFile :: bool
  summary :: "JsString option"
  isSummarizing :: bool
  sessionPromiseRef :: "AppMode option"
  inputAudioContextRef :: "nat option"
  outputAudioContextRef :: "nat option"
  mediaStreamRef :: "nat option"
  scriptProcessorRef :: "nat option"
  mediaStreamSourceRef :: "nat option"
  currentInputTranscriptionRef :: JsString
  currentOutputTranscriptionRef :: JsString
  nextStartTimeRef :: real
  audioSourcesRef :: "nat list"
  contexts :: "AudioContext list"
  sources :: "AudioBufferSourceNode list"
  effects :: "Effect list"

definition initialState :: AppState where
  "initialState =
     \<lparr> mode = conversation, status = idle, isRecording = False,
       transcriptHistory = [], historyQueue = [],
       currentUserTranscript = [], currentAiTranscript = [],
       fileTranscription = None, isProcessingFile = False,
       summary = None, isSummarizing = False,
       sessionPromiseRef = None, inputAudioContextRef = None,
       outputAudioContextRef = None, mediaStreamRef = None,
       scriptProcessorRef = None, mediaStreamSourceRef = None,
       currentInputTranscriptionRef = [], currentOutputTranscriptionRef = [],
       nextStartTimeRef = 0, audioSourcesRef = [],
       contexts = [], sources = [], effects = [] \<rparr>"

definition consoleError :: "AppState \<Rightarrow> AppState" where
  "consoleError s = s\<lparr>effects := effects s @ [ConsoleError]\<rparr>"

subsection \<open>Running the queued history updates\<close>

definition bufferOf :: "Speaker \<Rightarrow> AppState \<Rightarrow> JsString" where
  "bufferOf sp s =
     (case sp of user \<Rightarrow> currentInputTranscriptionRef s
               | ai \<Rightarrow> currentOutputTranscriptionRef s)"

text \<open>The updater for speaker \<open>sp\<close>, run on \<open>prev\<close> while the refs are as in \<open>s\<close>.\<close>

definition appendEntry :: "Speaker \<Rightarrow> AppState \<Rightarrow> TranscriptEntry list \<Rightarrow> TranscriptEntry list" where
  "appendEntry sp s prev = prev @ [\<lparr>speaker = sp, text = trim (bufferOf sp s)\<rparr>]"

text \<open>
  \<open>eager\<close> says whether React takes its fast path for a component without pending
  update; an update behind another one in the queue is never computed early.
\<close>

definition setTranscriptHistory :: "bool \<Rightarrow> Speaker \<Rightarrow> AppState \<Rightarrow> AppState" where
  "setTranscriptHistory eager sp s =
     (if eager \<and> historyQueue s = []
      then s\<lparr>historyQueue := [Computed (appendEntry sp s (transcriptHistory s))]\<rparr>
      else s\<lparr>historyQueue := historyQueue s @ [Deferred sp]\<rparr>)"

definition applyUpdate :: "AppState \<Rightarrow> TranscriptEntry list \<Rightarrow> HistoryUpdate \<Rightarrow> TranscriptEntry list" where
  "applyUpdate s prev u = (case u of Computed h \<Rightarrow> h | Deferred sp \<Rightarrow> appendEntry sp s prev)"

definition render :: "AppState \<Rightarrow> AppState" where
  "render s =
     s\<lparr>transcriptHistory := foldl (applyUpdate s) (transcriptHistory s) (historyQueue s),
       historyQueue := []\<rparr>"

section \<open>stopSession\<close>

text \<open>
  What the awaited session promise does when \<open>stopSession\<close> closes the session: it
  rejects, or it resolves to a session whose \<open>close\<close> throws or returns. Either
  failure is caught and logged.
\<close>

datatype SessionFate = PromiseRejected | CloseThrows | CloseReturns

definition closeSession :: "SessionFate \<Rightarrow> AppState \<Rightarrow> AppState" where
  "closeSession fate s =
     (case fate of
        PromiseRejected \<Rightarrow> consoleError s
      | CloseThrows \<Rightarrow> consoleError (s\<lparr>effects := effects s @ [SessionClose]\<rparr>)
      | CloseReturns \<Rightarrow> s\<lparr>effects := effects s @ [SessionClose]\<rparr>)"

text \<open>
  An index held by a ref always names an allocated object; a context is open when its
  state is not \<open>closed\<close>. \<open>AudioContext.close\<close> sets the state.
\<close>

definition ctxOpen :: "AudioContext list \<Rightarrow> nat \<Rightarrow> bool" where
  "ctxOpen cs i = (i < length cs \<and> state (cs ! i) \<noteq> Closed)"

definition closeContext :: "nat \<Rightarrow> AudioContext list \<Rightarrow> AudioContext list" where
  "closeContext i cs = cs[i := (cs ! i)\<lparr>state := Closed\<rparr>]"

text \<open>
  \<open>audioSourcesRef.current.forEach(source => source.stop())\<close>:
  \<open>AudioScheduledSourceNode.stop\<close> throws InvalidStateError on a node that was never
  started, which ends the loop and the handler.
\<close>

fun stopAll :: "nat list \<Rightarrow> AudioBufferSourceNode list \<Rightarrow> Completion \<times> AudioBufferSourceNode list" where
  "stopAll [] srcs = (Returned, srcs)"
| "stopAll (k # ks) srcs =
     (if k < length srcs \<and> started (srcs ! k)
      then stopAll ks (srcs[k := (srcs ! k)\<lparr>stopped := True\<rparr>])
      else (Threw, srcs))"

definition clearLiveTranscripts :: "AppState \<Rightarrow> AppState" where
  "clearLiveTranscripts s =
     s\<lparr>currentUserTranscript := [], currentAiTranscript := [],
       currentInputTranscriptionRef := [], currentOutputTranscriptionRef := []\<rparr>"

text \<open>The blocks of \<open>stopSession\<close>, in the order of the source.\<close>

definition closeSessionBlock :: "SessionFate \<Rightarrow> AppState \<Rightarrow> AppState" where
  "closeSessionBlock fate s =
     (case sessionPromiseRef s of
        None \<Rightarrow> s
      | Some p \<Rightarrow> (closeSession fate s)\<lparr>sessionPromiseRef := None\<rparr>)"

definition stopTracksBlock :: "AppState \<Rightarrow> AppState" where
  "stopTracksBlock s =
     (case mediaStreamRef s of
        None \<Rightarrow> s
      | Some n \<Rightarrow> s\<lparr>effects := effects s @ replicate n TrackStop, mediaStreamRef := None\<rparr>)"

definition disconnectProcessorBlock :: "AppState \<Rightarrow> AppState" where
  "disconnectProcessorBlock s =
     (case scriptProcessorRef s of
        None \<Rightarrow> s
      | Some c \<Rightarrow> s\<lparr>effects := effects s @ [NodeDisconnect], scriptProcessorRef := None\<rparr>)"

definition disconnectSourceBlock :: "AppState \<Rightarrow> AppState" where
  "disconnectSourceBlock s =
     (case mediaStreamSourceRef s of
        None \<Rightarrow> s
      | Some c \<Rightarrow> s\<lparr>effects := effects s @ [NodeDisconnect], mediaStreamSourceRef := None\<rparr>)"

definition closeInputBlock :: "AppState \<Rightarrow> AppState" where
  "closeInputBlock s =
     (case inputAudioContextRef s of
        None \<Rightarrow> s
      | Some i \<Rightarrow>
          if ctxOpen (contexts s) i
          then s\<lparr>contexts := closeContext i (contexts s), inputAudioContextRef := None\<rparr>
          else s)"

definition closeOutputBlock :: "AppState \<Rightarrow> Completion \<times> AppState" where
  "closeOutputBlock s =
     (case outputAudioContextRef s of
        None \<Rightarrow> (Returned, s)
      | Some j \<Rightarrow>
          if ctxOpen (contexts s) j
          then (case stopAll (audioSourcesRef s) (sources s) of
                  (Threw, srcs) \<Rightarrow> (Threw, s\<lparr>sources := srcs\<rparr>)
                | (Returned, srcs) \<Rightarrow>
                    (Returned,
                     s\<lparr>sources := srcs, audioSourcesRef := [],
                       contexts := closeContext j (contexts s),
                       outputAudioContextRef := None\<rparr>))
          else (Returned, s))"

definition stopSession :: "SessionFate \<Rightarrow> AppState \<Rightarrow> Completion \<times> AppState" where
  "stopSession fate s =
     (let s1 = s\<lparr>isRecording := False, status := idle\<rparr>;
          s2 = closeSessionBlock fate s1;
          s3 = stopTracksBlock s2;
          s4 = disconnectProcessorBlock s3;
          s5 = disconnectSourceBlock s4;
          s6 = closeInputBlock s5
      in case closeOutputBlock s6 of
           (Threw, s7) \<Rightarrow> (Threw, s7)
         | (Returned, s7) \<Rightarrow> (Returned, clearLiveTranscripts s7))"

section \<open>startSession\<close>

text \<open>
  The statement of the \<open>try\<close> block that throws, if any: \<open>getUserMedia\<close> rejecting,
  either \<open>AudioContext\<close> constructor, or the construction of the client. The
  \<open>catch\<close> block is \<open>startFailed\<close>.
\<close>

datatype StartFault = NoFault | MicFault | InputContextFault | OutputContextFault | ClientFault

definition startFailed :: "AppState \<Rightarrow> AppState" where
  "startFailed s = (consoleError s)\<lparr>status := error, isRecording := False\<rparr>"

definition startSession :: "JsString option \<Rightarrow> StartFault \<Rightarrow> nat \<Rightarrow> AppState \<Rightarrow> AppState" where
  "startSession apiKey fault tracks s =
     (if \<not> truthy apiKey then (consoleError s)\<lparr>status := error\<rparr>
      else
        let s1 = s\<lparr>isRecording := True, status := connecting, summary := None\<rparr>;
            s2 = s1\<lparr>effects := effects s1 @ [GetUserMedia]\<rparr>
        in if fault = MicFault then startFailed s2
        else
          let s3 = s2\<lparr>mediaStreamRef := Some tracks\<rparr>
          in if fault = InputContextFault then startFailed s3
          else
            let s4 = s3\<lparr>contexts := contexts s3 @ [\<lparr>ctxSampleRate = 16000, state = Running\<rparr>],
                        inputAudioContextRef := Some (length (contexts s3))\<rparr>
            in if fault = OutputContextFault then startFailed s4
            else
              let s5 = s4\<lparr>contexts := contexts s4 @ [\<lparr>ctxSampleRate = 24000, state = Running\<rparr>],
                          outputAudioContextRef := Some (length (contexts s4)),
                          nextStartTimeRef := 0\<rparr>
              in if fault = ClientFault then startFailed s5
              else s5\<lparr>effects := effects s5 @ [Connect (mode s5)],
                      sessionPromiseRef := Some (mode s5)\<rparr>)"

section \<open>The session callbacks\<close>

definition onopen :: "AppState \<Rightarrow> Completion \<times> AppState" where
  "onopen s =
     (let s1 = s\<lparr>status := listening\<rparr>
      in case (inputAudioContextRef s1, mediaStreamRef s1) of
           (Some c, Some n) \<Rightarrow>
             (Returned, s1\<lparr>mediaStreamSourceRef := Some c, scriptProcessorRef := Some c\<rparr>)
         | _ \<Rightarrow> (Threw, s1))"

text \<open>
  The fields of a \<open>LiveServerMessage\<close> the handler reads, with \<open>serverContent\<close>
  flattened. A transcription is an object whose \<open>text\<close> may be undefined.
  \<open>modelTurn\<close> is described by what \<open>parts[0]\<close> is.
\<close>

datatype Part0 = PartsUndefined | NoPart | PartWithoutInlineData | InlineData "JsString option"

record LiveServerMessage =
  inputTranscription :: "JsString option option"
  outputTranscription :: "JsString option option"
  modelTurn :: "Part0 option"
  turnComplete :: bool

text \<open>
  \<open>message.serverContent?.modelTurn?.parts[0]?.inlineData.data\<close>: \<open>None\<close> is a
  TypeError (indexing undefined \<open>parts\<close>, or reading \<open>data\<close> of an undefined
  \<open>inlineData\<close>).
\<close>

definition inlineDataOf :: "Part0 option \<Rightarrow> JsString option option" where
  "inlineDataOf mt =
     (case mt of
        None \<Rightarrow> Some None
      | Some PartsUndefined \<Rightarrow> None
      | Some NoPart \<Rightarrow> Some None
      | Some PartWithoutInlineData \<Rightarrow> None
      | Some (InlineData d) \<Rightarrow> Some d)"

definition onInputTranscription :: "LiveServerMessage \<Rightarrow> AppState \<Rightarrow> AppState" where
  "onInputTranscription msg s =
     (case inputTranscription msg of
        None \<Rightarrow> s
      | Some t \<Rightarrow>
          s\<lparr>currentInputTranscriptionRef := currentInputTranscriptionRef s @ toStr t,
            currentUserTranscript := currentInputTranscriptionRef s @ toStr t\<rparr>)"

definition onOutputTranscription :: "AppMode \<Rightarrow> LiveServerMessage \<Rightarrow> AppState \<Rightarrow> AppState" where
  "onOutputTranscription m msg s =
     (case outputTranscription msg of
        None \<Rightarrow> s
      | Some t \<Rightarrow>
          (let s1 = (if m = conversation then s\<lparr>status := speaking\<rparr> else s)
           in s1\<lparr>currentOutputTranscriptionRef := currentOutputTranscriptionRef s1 @ toStr t,
                 currentAiTranscript := currentOutputTranscriptionRef s1 @ toStr t\<rparr>))"

definition setAdd :: "nat \<Rightarrow> nat list \<Rightarrow> nat list" where
  "setAdd k ks = (if k \<in> set ks then ks else ks @ [k])"

text \<open>
  Lines 161 to 177. \<open>decodeAudio\<close> stands for \<open>decodeAudioData(decode(...), ctx, 24000, 1)\<close>
  of \<open>utils/audioUtils\<close>, which is not part of the sources at hand: \<open>None\<close> when it
  throws. \<open>now\<close> is \<open>audioContext.currentTime\<close>. \<open>start\<close> throws RangeError on a
  negative time.
\<close>

definition scheduleAudio ::
  "(JsString \<Rightarrow> AudioBuffer option) \<Rightarrow> real \<Rightarrow> JsString \<Rightarrow> nat \<Rightarrow> AppState \<Rightarrow> Completion \<times> AppState" where
  "scheduleAudio decodeAudio now b64 c s =
     (let s1 = s\<lparr>nextStartTimeRef := max (nextStartTimeRef s) now\<rparr>
      in case decodeAudio b64 of
           None \<Rightarrow> (Threw, s1)
         | Some audioBuffer \<Rightarrow>
             (let k = length (sources s1);
                  node = \<lparr>ownerContext = c, buffer = audioBuffer, startTime = 0,
                          started = False, stopped = False\<rparr>
              in if nextStartTimeRef s1 < 0
                 then (Threw, s1\<lparr>sources := sources s1 @ [node]\<rparr>)
                 else (Returned,
                       s1\<lparr>sources := sources s1 @
                              [node\<lparr>startTime := nextStartTimeRef s1, started := True\<rparr>],
                          nextStartTimeRef := nextStartTimeRef s1 + duration audioBuffer,
                          audioSourcesRef := setAdd k (audioSourcesRef s1)\<rparr>)))"

definition onTurnComplete :: "bool \<Rightarrow> AppMode \<Rightarrow> AppState \<Rightarrow> AppState" where
  "onTurnComplete eager m s =
     (let s1 = (if trim (currentInputTranscriptionRef s) \<noteq> []
                then setTranscriptHistory eager user s else s);
          s2 = (if trim (currentOutputTranscriptionRef s1) \<noteq> [] \<and> m = conversation
                then setTranscriptHistory eager ai s1 else s1)
      in s2\<lparr>currentInputTranscriptionRef := [], currentOutputTranscriptionRef := [],
            currentUserTranscript := [], currentAiTranscript := []\<rparr>)"

text \<open>Lines 159 to 178: the inline audio of the message, if it has any.\<close>

definition onInlineAudio ::
  "AppMode \<Rightarrow> real \<Rightarrow> (JsString \<Rightarrow> AudioBuffer option) \<Rightarrow> LiveServerMessage \<Rightarrow> AppState
     \<Rightarrow> Completion \<times> AppState" where
  "onInlineAudio m now decodeAudio msg s =
     (case inlineDataOf (modelTurn msg) of
        None \<Rightarrow> (Threw, s)
      | Some d \<Rightarrow>
          if truthy d \<and> outputAudioContextRef s \<noteq> None \<and> m = conversation
          then scheduleAudio decodeAudio now (the d) (the (outputAudioContextRef s)) s
          else (Returned, s))"

text \<open>\<open>m\<close> is the \<open>mode\<close> the callback closed over when the session was started.\<close>

definition onmessage ::
  "AppMode \<Rightarrow> bool \<Rightarrow> real \<Rightarrow> (JsString \<Rightarrow> AudioBuffer option) \<Rightarrow> LiveServerMessage \<Rightarrow> AppState
     \<Rightarrow> Completion \<times> AppState" where
  "onmessage m eager now decodeAudio msg s =
     (let s1 = onInputTranscription msg s;
          s2 = onOutputTranscription m msg s1
      in case onInlineAudio m now decodeAudio msg s2 of
           (Threw, s3) \<Rightarrow> (Threw, s3)
         | (Returned, s3) \<Rightarrow>
             (Returned, if turnComplete msg then onTurnComplete eager m s3 else s3))"

text \<open>The listener of a source's \<open>ended\<close> event.\<close>

definition onended :: "nat \<Rightarrow> AppState \<Rightarrow> AppState" where
  "onended k s =
     (let s1 = s\<lparr>audioSourcesRef := removeAll k (audioSourcesRef s)\<rparr>
      in if audioSourcesRef s1 = [] then s1\<lparr>status := listening\<rparr> else s1)"

definition onerror :: "SessionFate \<Rightarrow> AppState \<Rightarrow> Completion \<times> AppState" where
  "onerror fate s = stopSession fate ((consoleError s)\<lparr>status := error\<rparr>)"

definition onclose :: "SessionFate \<Rightarrow> AppState \<Rightarrow> Completion \<times> AppState" where
  "onclose fate s = stopSession fate s"

section \<open>The user interface handlers\<close>

definition handleToggleConversation ::
  "JsString option \<Rightarrow> StartFault \<Rightarrow> nat \<Rightarrow> SessionFate \<Rightarrow> AppState \<Rightarrow> Completion \<times> AppState" where
  "handleToggleConversation apiKey fault tracks fate s =
     (if isRecording s then stopSession fate s
      else (Returned, startSession apiKey fault tracks s))"

text \<open>The two mode buttons: \<open>if (!isRecording) setMode(m)\<close>.\<close>

definition clickMode :: "AppMode \<Rightarrow> AppState \<Rightarrow> AppState" where
  "clickMode m s = (if \<not> isRecording s then s\<lparr>mode := m\<rparr> else s)"

text \<open>
  \<open>handleFileUpload\<close> up to the start of the asynchronous read, and the reader's
  \<open>onload\<close> callback, whose request resolves to a response text or rejects.
\<close>

definition handleFileUpload :: "bool \<Rightarrow> bool \<Rightarrow> AppState \<Rightarrow> AppState" where
  "handleFileUpload hasFile readThrows s =
     (if \<not> hasFile then s
      else
        let s1 = s\<lparr>isProcessingFile := True, fileTranscription := None, status := processing\<rparr>;
            s2 = (if readThrows then (consoleError s1)\<lparr>status := error\<rparr> else s1)
        in s2\<lparr>isProcessingFile := False\<rparr>)"

definition readerOnload :: "JsString option option \<Rightarrow> AppState \<Rightarrow> Completion \<times> AppState" where
  "readerOnload response s =
     (let s1 = s\<lparr>effects := effects s @ [GenerateContent]\<rparr>
      in case response of
           None \<Rightarrow> (Threw, s1)
         | Some t \<Rightarrow>
             (Returned,
              s1\<lparr>fileTranscription := Some (orElse t (str ''No transcription available.'')),
                 status := idle\<rparr>))"

definition generateSummary :: "JsString option option \<Rightarrow> AppState \<Rightarrow> AppState" where
  "generateSummary response s =
     (if transcriptHistory s = [] then s
      else
        let s1 = s\<lparr>isSummarizing := True\<rparr>;
            s2 = s1\<lparr>effects := effects s1 @ [GenerateContent]\<rparr>;
            s3 = (case response of
                    None \<Rightarrow> (consoleError s2)\<lparr>summary := Some (str ''Error generating summary.'')\<rparr>
                  | Some t \<Rightarrow> s2\<lparr>summary := Some (orElse t (str ''Summary unavailable.''))\<rparr>)
        in s3\<lparr>isSummarizing := False\<rparr>)"

definition closeSummary :: "AppState \<Rightarrow> AppState" where
  "closeSummary s = s\<lparr>summary := None\<rparr>"

section \<open>Runs of the component\<close>

text \<open>
  An event is one handler invocation together with what the environment decides in it:
  the API key and the statement of \<open>startSession\<close> that throws, the fate of the
  session promise on \<open>stopSession\<close>, the message, the clock and the decoder of
  \<open>onmessage\<close>, the response of a generation request. A \<open>Message\<close> carries the
  \<open>mode\<close> its callback closed over when its session was started. \<open>Unmount\<close> is
  the effect cleanup, which calls \<open>stopSession\<close>.

  Every handler runs to completion, and React renders before the next event: the awaits
  inside \<open>startSession\<close>, \<open>stopSession\<close> and \<open>onmessage\<close> are not
  interleaving points here, so a second handler never sees a teardown half done.
\<close>

datatype Event =
    Toggle "JsString option" StartFault nat SessionFate
  | ClickMode AppMode
  | Open
  | Message AppMode bool real "JsString \<Rightarrow> AudioBuffer option" LiveServerMessage
  | RemoteError SessionFate
  | RemoteClose SessionFate
  | Ended nat
  | Unmount SessionFate
  | FileUpload bool bool
  | ReaderOnload "JsString option option"
  | Summarize "JsString option option"
  | CloseSummary

definition handle :: "Event \<Rightarrow> AppState \<Rightarrow> Completion \<times> AppState" where
  "handle e s =
     (case e of
        Toggle apiKey fault tracks fate \<Rightarrow> handleToggleConversation apiKey fault tracks fate s
      | ClickMode m \<Rightarrow> (Returned, clickMode m s)
      | Open \<Rightarrow> onopen s
      | Message m eager now decodeAudio msg \<Rightarrow> onmessage m eager now decodeAudio msg s
      | RemoteError fate \<Rightarrow> onerror fate s
      | RemoteClose fate \<Rightarrow> onclose fate s
      | Ended k \<Rightarrow> (Returned, onended k s)
      | Unmount fate \<Rightarrow> stopSession fate s
      | FileUpload hasFile readThrows \<Rightarrow> (Returned, handleFileUpload hasFile readThrows s)
      | ReaderOnload response \<Rightarrow> readerOnload response s
      | Summarize response \<Rightarrow> (Returned, generateSummary response s)
      | CloseSummary \<Rightarrow> (Returned, closeSummary s))"

definition step :: "Event \<Rightarrow> AppState \<Rightarrow> AppState" where
  "step e s = render (snd (handle e s))"

text \<open>
  When an event can occur. The main button is disabled while connecting or while a file
  is processed, and the Summarize button is shown for a non-empty history in
  conversation mode while not recording. The callbacks of a session and the \<open>ended\<close>
  listener of a source test nothing before they run, so they can occur in any state:
  also after \<open>stopSession\<close>, which sets \<open>isRecording\<close> and the status before it
  closes the session, and for a source that has left the active set.
\<close>

definition enabled :: "Event \<Rightarrow> AppState \<Rightarrow> bool" where
  "enabled e s =
     (case e of
        Toggle apiKey fault tracks fate \<Rightarrow> status s \<noteq> connecting \<and> \<not> isProcessingFile s
      | Summarize response \<Rightarrow>
          transcriptHistory s \<noteq> [] \<and> \<not> isRecording s \<and> mode s = conversation \<and> \<not> isSummarizing s
      | _ \<Rightarrow> True)"

inductive reachable :: "AppState \<Rightarrow> bool" where
  reachable_init: "reachable initialState"
| reachable_step: "reachable s \<Longrightarrow> enabled e s \<Longrightarrow> reachable (step e s)"

fun run :: "Event list \<Rightarrow> AppState \<Rightarrow> AppState" where
  "run [] s = s"
| "run (e # es) s = run es (step e s)"

text \<open>Whether every event of a list is enabled when its turn comes.\<close>

fun runnable :: "Event list \<Rightarrow> AppState \<Rightarrow> bool" where
  "runnable [] s = True"
| "runnable (e # es) s = (enabled e s \<and> runnable es (step e s))"

section \<open>Example runs\<close>

text \<open>
  A one-second buffer at 24 kHz for every payload, a message that carries audio only,
  and the run that starts a session and receives two such messages.
\<close>

definition exampleKey :: "JsString option" where
  "exampleKey = Some (str ''key'')"

definition exampleDecode :: "JsString \<Rightarrow> AudioBuffer option" where
  "exampleDecode b64 = Some \<lparr>frameCount = 24000, sampleRate = 24000\<rparr>"

definition emptyMessage :: LiveServerMessage where
  "emptyMessage =
     \<lparr>inputTranscription = None, outputTranscription = None, modelTurn = None,
      turnComplete = False\<rparr>"

definition audioMessage :: LiveServerMessage where
  "audioMessage = emptyMessage\<lparr>modelTurn := Some (InlineData (Some (str ''AAAA'')))\<rparr>"

definition startAndOpen :: "Event list" where
  "startAndOpen = [Toggle exampleKey NoFault 1 CloseReturns, Open]"

definition twoSources :: "Event list" where
  "twoSources =
     startAndOpen @
     [Message conversation False (1/2) exampleDecode audioMessage,
      Message conversation False (3/4) exampleDecode audioMessage]"

text \<open>
  Messages that carry one transcription fragment, the message that only signals turn
  completion, and a turn in conversation mode: the user says \<open>salam alekum\<close> in two
  fragments, the assistant answers \<open>walaikum\<close>, the turn completes.
\<close>

definition inputMessage :: "string \<Rightarrow> LiveServerMessage" where
  "inputMessage t = emptyMessage\<lparr>inputTranscription := Some (Some (str t))\<rparr>"

definition outputMessage :: "string \<Rightarrow> LiveServerMessage" where
  "outputMessage t = emptyMessage\<lparr>outputTranscription := Some (Some (str t))\<rparr>"

definition turnCompleteMessage :: LiveServerMessage where
  "turnCompleteMessage = emptyMessage\<lparr>turnComplete := True\<rparr>"

definition fragments :: "Event list" where
  "fragments =
     startAndOpen @
     [Message conversation False 0 exampleDecode (inputMessage ''salam''),
      Message conversation False 0 exampleDecode (inputMessage '' alekum''),
      Message conversation False 0 exampleDecode (outputMessage ''walaikum '')]"

definition oneTurn :: "bool \<Rightarrow> Event list" where
  "oneTurn eager = fragments @ [Message conversation eager 0 exampleDecode turnCompleteMessage]"

definition turnAndFragment :: "Event list" where
  "turnAndFragment =
     startAndOpen @
     [Message conversation True 0 exampleDecode (inputMessage ''salam''),
      Message conversation True 0 exampleDecode turnCompleteMessage,
      Message conversation True 0 exampleDecode (inputMessage ''next'')]"

text \<open>
  A message of the stopped session that is delivered after \<open>stopSession\<close>: the
  session is started and opened, the main button stops it, and a message with an
  output transcription fragment arrives.
\<close>

definition lateMessage :: "Event list" where
  "lateMessage =
     startAndOpen @
     [Toggle exampleKey NoFault 1 CloseReturns,
      Message conversation False 0 exampleDecode (outputMessage ''late'')]"

section \<open>Invariants of reachable states\<close>

definition sourcesStarted :: "nat list \<Rightarrow> AudioBufferSourceNode list \<Rightarrow> bool" where
  "sourcesStarted ks srcs = list_all (\<lambda>k. k < length srcs \<and> started (srcs ! k)) ks"

text \<open>
  What every reachable state satisfies: a held session promise and the status
  \<open>connecting\<close> imply \<open>isRecording\<close>; sources are only active under an output
  context; a context held by a ref is open, and the two refs hold different contexts;
  every active source has been started.
\<close>

definition wfRefs :: "AppState \<Rightarrow> bool" where
  "wfRefs s =
     ((sessionPromiseRef s \<noteq> None \<longrightarrow> isRecording s) \<and>
      (status s = connecting \<longrightarrow> isRecording s) \<and>
      (audioSourcesRef s \<noteq> [] \<longrightarrow> outputAudioContextRef s \<noteq> None) \<and>
      (\<forall>j. outputAudioContextRef s = Some j \<longrightarrow>
           ctxOpen (contexts s) j \<and> inputAudioContextRef s \<noteq> None \<and>
           inputAudioContextRef s \<noteq> Some j) \<and>
      (\<forall>i. inputAudioContextRef s = Some i \<longrightarrow> ctxOpen (contexts s) i) \<and>
      sourcesStarted (audioSourcesRef s) (sources s))"

text \<open>The states \<open>stopSession\<close> leaves: nothing is left for it to release.\<close>

definition stoppedState :: "AppState \<Rightarrow> bool" where
  "stoppedState s =
     (\<not> isRecording s \<and> status s = idle \<and> sessionPromiseRef s = None \<and>
      mediaStreamRef s = None \<and> scriptProcessorRef s = None \<and> mediaStreamSourceRef s = None \<and>
      (\<forall>i. inputAudioContextRef s = Some i \<longrightarrow> \<not> ctxOpen (contexts s) i) \<and>
      (\<forall>j. outputAudioContextRef s = Some j \<longrightarrow> \<not> ctxOpen (contexts s) j) \<and>
      currentUserTranscript s = [] \<and> currentAiTranscript s = [] \<and>
      currentInputTranscriptionRef s = [] \<and> currentOutputTranscriptionRef s = [])"

text \<open>
  The playback schedule of an audio context: start time and duration of every source of
  that context on which \<open>start\<close> was called, in the order of the calls. Every
  session that opens has an output context of its own, so the sources scheduled within
  a session are the schedule of its output context.
\<close>

definition schedule :: "nat \<Rightarrow> AudioBufferSourceNode list \<Rightarrow> (real \<times> real) list" where
  "schedule c srcs =
     map (\<lambda>x. (startTime x, duration (buffer x)))
       (filter (\<lambda>x. ownerContext x = c \<and> started x) srcs)"

definition scheduledIn :: "nat \<Rightarrow> AppState \<Rightarrow> (real \<times> real) list" where
  "scheduledIn c s = schedule c (sources s)"

fun nonOverlapping :: "(real \<times> real) list \<Rightarrow> bool" where
  "nonOverlapping [] = True"
| "nonOverlapping [p] = True"
| "nonOverlapping (p # q # ps) = (fst p + snd p \<le> fst q \<and> nonOverlapping (q # ps))"

text \<open>
  The invariant behind the schedule: each schedule is non-overlapping, every source
  belongs to an allocated context, and nothing scheduled on the current output context
  ends after the cursor \<open>nextStartTimeRef\<close>.
\<close>

definition scheduleInv :: "AppState \<Rightarrow> bool" where
  "scheduleInv s =
     ((\<forall>c. nonOverlapping (scheduledIn c s)) \<and>
      (\<forall>x \<in> set (sources s). ownerContext x < length (contexts s)) \<and>
      (\<forall>j. outputAudioContextRef s = Some j \<longrightarrow>
           (\<forall>p \<in> set (scheduledIn j s). fst p + snd p \<le> nextStartTimeRef s)))"

text \<open>
  What a completed turn adds to the rendered history, worked out from \<open>onTurnComplete\<close>
  and \<open>render\<close> (lemma \<open>render_onTurnComplete\<close>): an updater that React runs at
  render time finds the buffers already cleared.
\<close>

definition finalized :: "bool \<Rightarrow> AppMode \<Rightarrow> AppState \<Rightarrow> TranscriptEntry list" where
  "finalized eager m s =
     (if trim (currentInputTranscriptionRef s) \<noteq> []
      then [\<lparr>speaker = user,
             text = (if eager then trim (currentInputTranscriptionRef s) else [])\<rparr>]
      else []) @
     (if trim (currentOutputTranscriptionRef s) \<noteq> [] \<and> m = conversation
      then [\<lparr>speaker = ai,
             text = (if eager \<and> trim (currentInputTranscriptionRef s) = []
                     then trim (currentOutputTranscriptionRef s) else [])\<rparr>]
      else [])"

section \<open>Facts about stopSession\<close>

lemma stopAll_ok:
  "sourcesStarted ks srcs \<Longrightarrow>
   fst (stopAll ks srcs) = Returned \<and> length (snd (stopAll ks srcs)) = length srcs \<and>
   (\<forall>k < length srcs. started (snd (stopAll ks srcs) ! k) = started (srcs ! k)
       \<and> ownerContext (snd (stopAll ks srcs) ! k) = ownerContext (srcs ! k)
       \<and> startTime (snd (stopAll ks srcs) ! k) = startTime (srcs ! k)
       \<and> buffer (snd (stopAll ks srcs) ! k) = buffer (srcs ! k)
       \<and> (stopped (srcs ! k) \<longrightarrow> stopped (snd (stopAll ks srcs) ! k))) \<and>
   (\<forall>k \<in> set ks. stopped (snd (stopAll ks srcs) ! k))"
proof (induction ks arbitrary: srcs)
  case Nil
  then show ?case by simp
next
  case (Cons k ks)
  let ?srcs = "srcs[k := (srcs ! k)\<lparr>stopped := True\<rparr>]"
  from Cons.prems have k: "k < length srcs" "started (srcs ! k)"
    and ks: "sourcesStarted ks srcs"
    by (simp_all add: sourcesStarted_def)
  have ks': "sourcesStarted ks ?srcs"
    using ks k by (auto simp: sourcesStarted_def list_all_iff nth_list_update)
  note IH = Cons.IH [OF ks']
  have eq: "stopAll (k # ks) srcs = stopAll ks ?srcs" using k by simp
  show ?case unfolding eq using IH k
    by (auto simp: nth_list_update split: if_splits)
qed


lemma closeSessionBlock_simps:
  "isRecording (closeSessionBlock f s) = isRecording s"
  "status (closeSessionBlock f s) = status s"
  "mode (closeSessionBlock f s) = mode s"
  "transcriptHistory (closeSessionBlock f s) = transcriptHistory s"
  "historyQueue (closeSessionBlock f s) = historyQueue s"
  "sessionPromiseRef (closeSessionBlock f s) = None"
  "inputAudioContextRef (closeSessionBlock f s) = inputAudioContextRef s"
  "outputAudioContextRef (closeSessionBlock f s) = outputAudioContextRef s"
  "mediaStreamRef (closeSessionBlock f s) = mediaStreamRef s"
  "scriptProcessorRef (closeSessionBlock f s) = scriptProcessorRef s"
  "mediaStreamSourceRef (closeSessionBlock f s) = mediaStreamSourceRef s"
  "audioSourcesRef (closeSessionBlock f s) = audioSourcesRef s"
  "contexts (closeSessionBlock f s) = contexts s"
  "sources (closeSessionBlock f s) = sources s"
  "nextStartTimeRef (closeSessionBlock f s) = nextStartTimeRef s"
  by (simp_all add: closeSessionBlock_def closeSession_def consoleError_def
      split: option.splits SessionFate.splits)

lemma stopTracksBlock_simps:
  "isRecording (stopTracksBlock s) = isRecording s"
  "status (stopTracksBlock s) = status s"
  "mode (stopTracksBlock s) = mode s"
  "transcriptHistory (stopTracksBlock s) = transcriptHistory s"
  "historyQueue (stopTracksBlock s) = historyQueue s"
  "sessionPromiseRef (stopTracksBlock s) = sessionPromiseRef s"
  "inputAudioContextRef (stopTracksBlock s) = inputAudioContextRef s"
  "outputAudioContextRef (stopTracksBlock s) = outputAudioContextRef s"
  "mediaStreamRef (stopTracksBlock s) = None"
  "scriptProcessorRef (stopTracksBlock s) = scriptProcessorRef s"
  "mediaStreamSourceRef (stopTracksBlock s) = mediaStreamSourceRef s"
  "audioSourcesRef (stopTracksBlock s) = audioSourcesRef s"
  "contexts (stopTracksBlock s) = contexts s"
  "sources (stopTracksBlock s) = sources s"
  "nextStartTimeRef (stopTracksBlock s) = nextStartTimeRef s"
  by (simp_all add: stopTracksBlock_def split: option.splits)

lemma disconnectProcessorBlock_simps:
  "isRecording (disconnectProcessorBlock s) = isRecording s"
  "status (disconnectProcessorBlock s) = status s"
  "mode (disconnectProcessorBlock s) = mode s"
  "transcriptHistory (disconnectProcessorBlock s) = transcriptHistory s"
  "historyQueue (disconnectProcessorBlock s) = historyQueue s"
  "sessionPromiseRef (disconnectProcessorBlock s) = sessionPromiseRef s"
  "inputAudioContextRef (disconnectProcessorBlock s) = inputAudioContextRef s"
  "outputAudioContextRef (disconnectProcessorBlock s) = outputAudioContextRef s"
  "mediaStreamRef (disconnectProcessorBlock s) = mediaStreamRef s"
  "scriptProcessorRef (disconnectProcessorBlock s) = None"
  "mediaStreamSourceRef (disconnectProcessorBlock s) = mediaStreamSourceRef s"
  "audioSourcesRef (disconnectProcessorBlock s) = audioSourcesRef s"
  "contexts (disconnectProcessorBlock s) = contexts s"
  "sources (disconnectProcessorBlock s) = sources s"
  "nextStartTimeRef (disconnectProcessorBlock s) = nextStartTimeRef s"
  by (simp_all add: disconnectProcessorBlock_def split: option.splits)

lemma disconnectSourceBlock_simps:
  "isRecording (disconnectSourceBlock s) = isRecording s"
  "status (disconnectSourceBlock s) = status s"
  "mode (disconnectSourceBlock s) = mode s"
  "transcriptHistory (disconnectSourceBlock s) = transcriptHistory s"
  "historyQueue (disconnectSourceBlock s) = historyQueue s"
  "sessionPromiseRef (disconnectSourceBlock s) = sessionPromiseRef s"
  "inputAudioContextRef (disconnectSourceBlock s) = inputAudioContextRef s"
  "outputAudioContextRef (disconnectSourceBlock s) = outputAudioContextRef s"
  "mediaStreamRef (disconnectSourceBlock s) = mediaStreamRef s"
  "scriptProcessorRef (disconnectSourceBlock s) = scriptProcessorRef s"
  "mediaStreamSourceRef (disconnectSourceBlock s) = None"
  "audioSourcesRef (disconnectSourceBlock s) = audioSourcesRef s"
  "contexts (disconnectSourceBlock s) = contexts s"
  "sources (disconnectSourceBlock s) = sources s"
  "nextStartTimeRef (disconnectSourceBlock s) = nextStartTimeRef s"
  by (simp_all add: disconnectSourceBlock_def split: option.splits)

lemma closeInputBlock_simps:
  "isRecording (closeInputBlock s) = isRecording s"
  "status (closeInputBlock s) = status s"
  "mode (closeInputBlock s) = mode s"
  "transcriptHistory (closeInputBlock s) = transcriptHistory s"
  "historyQueue (closeInputBlock s) = historyQueue s"
  "sessionPromiseRef (closeInputBlock s) = sessionPromiseRef s"
  "outputAudioContextRef (closeInputBlock s) = outputAudioContextRef s"
  "mediaStreamRef (closeInputBlock s) = mediaStreamRef s"
  "scriptProcessorRef (closeInputBlock s) = scriptProcessorRef s"
  "mediaStreamSourceRef (closeInputBlock s) = mediaStreamSourceRef s"
  "audioSourcesRef (closeInputBlock s) = audioSourcesRef s"
  "sources (closeInputBlock s) = sources s"
  "effects (closeInputBlock s) = effects s"
  "nextStartTimeRef (closeInputBlock s) = nextStartTimeRef s"
  by (simp_all add: closeInputBlock_def split: option.splits)

lemma closeOutputBlock_simps:
  "isRecording (snd (closeOutputBlock s)) = isRecording s"
  "status (snd (closeOutputBlock s)) = status s"
  "mode (snd (closeOutputBlock s)) = mode s"
  "transcriptHistory (snd (closeOutputBlock s)) = transcriptHistory s"
  "historyQueue (snd (closeOutputBlock s)) = historyQueue s"
  "sessionPromiseRef (snd (closeOutputBlock s)) = sessionPromiseRef s"
  "inputAudioContextRef (snd (closeOutputBlock s)) = inputAudioContextRef s"
  "mediaStreamRef (snd (closeOutputBlock s)) = mediaStreamRef s"
  "scriptProcessorRef (snd (closeOutputBlock s)) = scriptProcessorRef s"
  "mediaStreamSourceRef (snd (closeOutputBlock s)) = mediaStreamSourceRef s"
  "effects (snd (closeOutputBlock s)) = effects s"
  "nextStartTimeRef (snd (closeOutputBlock s)) = nextStartTimeRef s"
  by (simp_all add: closeOutputBlock_def split: option.splits prod.splits Completion.splits)

lemma clearLiveTranscripts_simps:
  "isRecording (clearLiveTranscripts s) = isRecording s"
  "status (clearLiveTranscripts s) = status s"
  "mode (clearLiveTranscripts s) = mode s"
  "transcriptHistory (clearLiveTranscripts s) = transcriptHistory s"
  "historyQueue (clearLiveTranscripts s) = historyQueue s"
  "sessionPromiseRef (clearLiveTranscripts s) = sessionPromiseRef s"
  "inputAudioContextRef (clearLiveTranscripts s) = inputAudioContextRef s"
  "outputAudioContextRef (clearLiveTranscripts s) = outputAudioContextRef s"
  "mediaStreamRef (clearLiveTranscripts s) = mediaStreamRef s"
  "scriptProcessorRef (clearLiveTranscripts s) = scriptProcessorRef s"
  "mediaStreamSourceRef (clearLiveTranscripts s) = mediaStreamSourceRef s"
  "audioSourcesRef (clearLiveTranscripts s) = audioSourcesRef s"
  "contexts (clearLiveTranscripts s) = contexts s"
  "sources (clearLiveTranscripts s) = sources s"
  "effects (clearLiveTranscripts s) = effects s"
  "nextStartTimeRef (clearLiveTranscripts s) = nextStartTimeRef s"
  "currentUserTranscript (clearLiveTranscripts s) = []"
  "currentAiTranscript (clearLiveTranscripts s) = []"
  "currentInputTranscriptionRef (clearLiveTranscripts s) = []"
  "currentOutputTranscriptionRef (clearLiveTranscripts s) = []"
  by (simp_all add: clearLiveTranscripts_def)

lemmas stop_blocks = closeSessionBlock_simps stopTracksBlock_simps disconnectProcessorBlock_simps
  disconnectSourceBlock_simps closeInputBlock_simps closeOutputBlock_simps clearLiveTranscripts_simps

lemma snd_stopSession:
  "snd (stopSession fate s) =
     (let s7 = closeOutputBlock (closeInputBlock (disconnectSourceBlock (disconnectProcessorBlock
                 (stopTracksBlock (closeSessionBlock fate (s\<lparr>isRecording := False, status := idle\<rparr>))))))
      in if fst s7 = Threw then snd s7 else clearLiveTranscripts (snd s7))"
  by (simp add: stopSession_def Let_def split: prod.splits Completion.splits)

lemma fst_stopSession:
  "fst (stopSession fate s) =
     fst (closeOutputBlock (closeInputBlock (disconnectSourceBlock (disconnectProcessorBlock
                 (stopTracksBlock (closeSessionBlock fate (s\<lparr>isRecording := False, status := idle\<rparr>)))))))"
  by (simp add: stopSession_def Let_def split: prod.splits Completion.splits)

lemma stopSession_frame:
  "transcriptHistory (snd (stopSession fate s)) = transcriptHistory s"
  "historyQueue (snd (stopSession fate s)) = historyQueue s"
  "mode (snd (stopSession fate s)) = mode s"
  "status (snd (stopSession fate s)) = idle"
  "isRecording (snd (stopSession fate s)) = False"
  "sessionPromiseRef (snd (stopSession fate s)) = None"
  "mediaStreamRef (snd (stopSession fate s)) = None"
  "scriptProcessorRef (snd (stopSession fate s)) = None"
  "mediaStreamSourceRef (snd (stopSession fate s)) = None"
  "nextStartTimeRef (snd (stopSession fate s)) = nextStartTimeRef s"
  by (simp_all add: snd_stopSession Let_def stop_blocks)


lemma ctxOpen_closeContext:
  "ctxOpen (closeContext j cs) i = (ctxOpen cs i \<and> i \<noteq> j)"
  by (cases "i = j") (auto simp: ctxOpen_def closeContext_def)

lemma closeOutputBlock_returns:
  "sourcesStarted (audioSourcesRef s) (sources s) \<Longrightarrow> fst (closeOutputBlock s) = Returned"
  using stopAll_ok [of "audioSourcesRef s" "sources s"]
  by (auto simp: closeOutputBlock_def split: option.splits prod.splits Completion.splits)

lemma stopSession_returns:
  "sourcesStarted (audioSourcesRef s) (sources s) \<Longrightarrow> fst (stopSession fate s) = Returned"
  by (simp add: fst_stopSession closeOutputBlock_returns stop_blocks)


lemma closeInputBlock_closed:
  "inputAudioContextRef (closeInputBlock s) = Some i \<Longrightarrow> \<not> ctxOpen (contexts (closeInputBlock s)) i"
  by (auto simp: closeInputBlock_def split: option.splits if_splits)

lemma closeOutputBlock_contexts:
  "\<not> ctxOpen (contexts s) i \<Longrightarrow> \<not> ctxOpen (contexts (snd (closeOutputBlock s))) i"
  by (auto simp: closeOutputBlock_def ctxOpen_closeContext split: option.splits prod.splits Completion.splits)

lemma closeOutputBlock_closed:
  "fst (closeOutputBlock s) = Returned \<Longrightarrow> outputAudioContextRef (snd (closeOutputBlock s)) = Some j
     \<Longrightarrow> \<not> ctxOpen (contexts (snd (closeOutputBlock s))) j"
  by (auto simp: closeOutputBlock_def split: option.splits prod.splits Completion.splits if_splits)

lemma stoppedState_stopSession:
  assumes "fst (stopSession fate s) = Returned"
  shows "stoppedState (snd (stopSession fate s))"
proof -
  let ?s6 = "closeInputBlock (disconnectSourceBlock (disconnectProcessorBlock
                 (stopTracksBlock (closeSessionBlock fate (s\<lparr>isRecording := False, status := idle\<rparr>)))))"
  have r: "fst (closeOutputBlock ?s6) = Returned"
    using assms by (simp add: fst_stopSession)
  have s': "snd (stopSession fate s) = clearLiveTranscripts (snd (closeOutputBlock ?s6))"
    using r by (simp add: snd_stopSession Let_def)
  have inp: "\<forall>i. inputAudioContextRef (snd (closeOutputBlock ?s6)) = Some i \<longrightarrow>
               \<not> ctxOpen (contexts (snd (closeOutputBlock ?s6))) i"
    using closeInputBlock_closed closeOutputBlock_contexts
    by (simp add: closeOutputBlock_simps)
  have out: "\<forall>j. outputAudioContextRef (snd (closeOutputBlock ?s6)) = Some j \<longrightarrow>
               \<not> ctxOpen (contexts (snd (closeOutputBlock ?s6))) j"
    using closeOutputBlock_closed [OF r] by blast
  show ?thesis
    unfolding s' stoppedState_def using inp out
    by (simp add: stop_blocks)
qed


lemma stopSession_releases:
  assumes "wfRefs s"
  shows "fst (stopSession fate s) = Returned"
    and "audioSourcesRef (snd (stopSession fate s)) = []"
    and "inputAudioContextRef (snd (stopSession fate s)) = None"
    and "outputAudioContextRef (snd (stopSession fate s)) = None"
proof -
  let ?s5 = "disconnectSourceBlock (disconnectProcessorBlock
                 (stopTracksBlock (closeSessionBlock fate (s\<lparr>isRecording := False, status := idle\<rparr>))))"
  let ?s6 = "closeInputBlock ?s5"
  have st: "sourcesStarted (audioSourcesRef s) (sources s)"
    using assms by (simp add: wfRefs_def)
  show r: "fst (stopSession fate s) = Returned"
    using st by (rule stopSession_returns)
  have r6: "fst (closeOutputBlock ?s6) = Returned"
    using r by (simp add: fst_stopSession)
  have s': "snd (stopSession fate s) = clearLiveTranscripts (snd (closeOutputBlock ?s6))"
    using r6 by (simp add: snd_stopSession Let_def)
  have in5: "inputAudioContextRef ?s5 = inputAudioContextRef s" "contexts ?s5 = contexts s"
    by (simp_all add: stop_blocks)
  have inp: "inputAudioContextRef ?s6 = None"
    using assms in5 by (auto simp: wfRefs_def closeInputBlock_def split: option.splits)
  show "inputAudioContextRef (snd (stopSession fate s)) = None"
    unfolding s' using inp by (simp add: stop_blocks)
  have out6: "outputAudioContextRef ?s6 = outputAudioContextRef s"
    "audioSourcesRef ?s6 = audioSourcesRef s" "sources ?s6 = sources s"
    by (simp_all add: stop_blocks)
  have open6: "\<forall>j. outputAudioContextRef s = Some j \<longrightarrow> ctxOpen (contexts ?s6) j"
    using assms in5
    by (auto simp: wfRefs_def closeInputBlock_def ctxOpen_closeContext split: option.splits)
  have none: "outputAudioContextRef s = None \<longrightarrow> audioSourcesRef s = []"
    using assms by (auto simp: wfRefs_def)
  have both: "outputAudioContextRef (snd (closeOutputBlock ?s6)) = None \<and>
              audioSourcesRef (snd (closeOutputBlock ?s6)) = []"
    using out6 open6 none r6
    by (auto simp: closeOutputBlock_def split: option.splits prod.splits Completion.splits)
  show "audioSourcesRef (snd (stopSession fate s)) = []"
    unfolding s' using both by (simp add: stop_blocks)
  show "outputAudioContextRef (snd (stopSession fate s)) = None"
    unfolding s' using both by (simp add: stop_blocks)
qed

lemma wfRefs_stopSession:
  assumes "wfRefs s"
  shows "wfRefs (snd (stopSession fate s))"
  using stopSession_releases [OF assms, of fate]
  by (simp add: wfRefs_def stopSession_frame sourcesStarted_def)


section \<open>The invariant holds in every reachable state\<close>

lemma ctxOpen_append:
  "ctxOpen (cs @ ds) i = (if i < length cs then ctxOpen cs i else ctxOpen ds (i - length cs))"
  by (auto simp: ctxOpen_def nth_append)

lemma ctxOpen_Cons:
  "ctxOpen (c # cs) i = (if i = 0 then state c \<noteq> Closed else ctxOpen cs (i - 1))"
  by (cases i) (auto simp: ctxOpen_def)

lemma ctxOpen_Nil: "\<not> ctxOpen [] i"
  by (simp add: ctxOpen_def)

lemma wfRefs_startSession:
  assumes "wfRefs s" "\<not> isRecording s"
  shows "wfRefs (startSession apiKey fault tracks s)"
proof -
  have idle: "sessionPromiseRef s = None" "status s \<noteq> connecting"
    using assms by (auto simp: wfRefs_def)
  have lt: "\<forall>j. outputAudioContextRef s = Some j \<longrightarrow> j < length (contexts s)"
    using assms(1) by (auto simp: wfRefs_def ctxOpen_def)
  show ?thesis
    using assms idle lt
    by (cases fault)
       (auto simp: wfRefs_def startSession_def startFailed_def consoleError_def Let_def
          sourcesStarted_def ctxOpen_append ctxOpen_Cons ctxOpen_Nil)
qed

lemma wfRefs_onopen:
  "wfRefs s \<Longrightarrow> wfRefs (snd (onopen s))"
  by (auto simp: wfRefs_def onopen_def Let_def split: option.splits prod.splits)


lemma wfRefs_onInputTranscription:
  "wfRefs s \<Longrightarrow> wfRefs (onInputTranscription msg s)"
  by (simp add: wfRefs_def onInputTranscription_def split: option.splits)

lemma onInputTranscription_simps:
  "isRecording (onInputTranscription msg s) = isRecording s"
  "outputAudioContextRef (onInputTranscription msg s) = outputAudioContextRef s"
  "transcriptHistory (onInputTranscription msg s) = transcriptHistory s"
  "historyQueue (onInputTranscription msg s) = historyQueue s"
  "sources (onInputTranscription msg s) = sources s"
  "nextStartTimeRef (onInputTranscription msg s) = nextStartTimeRef s"
  "contexts (onInputTranscription msg s) = contexts s"
  by (simp_all add: onInputTranscription_def split: option.splits)

lemma wfRefs_onOutputTranscription:
  "wfRefs s \<Longrightarrow> wfRefs (onOutputTranscription m msg s)"
  by (simp add: wfRefs_def onOutputTranscription_def Let_def split: option.splits)

lemma onOutputTranscription_simps:
  "isRecording (onOutputTranscription m msg s) = isRecording s"
  "outputAudioContextRef (onOutputTranscription m msg s) = outputAudioContextRef s"
  "transcriptHistory (onOutputTranscription m msg s) = transcriptHistory s"
  "historyQueue (onOutputTranscription m msg s) = historyQueue s"
  "sources (onOutputTranscription m msg s) = sources s"
  "nextStartTimeRef (onOutputTranscription m msg s) = nextStartTimeRef s"
  "contexts (onOutputTranscription m msg s) = contexts s"
  by (simp_all add: onOutputTranscription_def Let_def split: option.splits)

lemma sourcesStarted_append:
  "sourcesStarted ks srcs \<Longrightarrow> sourcesStarted ks (srcs @ [x])"
  by (auto simp: sourcesStarted_def list_all_iff nth_append)

lemma sourcesStarted_setAdd:
  "sourcesStarted ks srcs \<Longrightarrow> started x \<Longrightarrow> sourcesStarted (setAdd (length srcs) ks) (srcs @ [x])"
  by (auto simp: sourcesStarted_def list_all_iff nth_append setAdd_def)

lemma wfRefs_scheduleAudio:
  assumes "wfRefs s" "outputAudioContextRef s = Some c"
  shows "wfRefs (snd (scheduleAudio decodeAudio now b64 c s))"
proof (cases "decodeAudio b64")
  case None
  then show ?thesis using assms by (simp add: scheduleAudio_def wfRefs_def)
next
  case (Some ab)
  have st: "sourcesStarted (audioSourcesRef s) (sources s)"
    using assms by (simp add: wfRefs_def)
  show ?thesis
    using assms Some sourcesStarted_append [OF st] sourcesStarted_setAdd [OF st]
    by (simp add: scheduleAudio_def wfRefs_def Let_def)
qed

lemma scheduleAudio_simps:
  "isRecording (snd (scheduleAudio d now b c s)) = isRecording s"
  "transcriptHistory (snd (scheduleAudio d now b c s)) = transcriptHistory s"
  "historyQueue (snd (scheduleAudio d now b c s)) = historyQueue s"
  "outputAudioContextRef (snd (scheduleAudio d now b c s)) = outputAudioContextRef s"
  "contexts (snd (scheduleAudio d now b c s)) = contexts s"
  by (simp_all add: scheduleAudio_def Let_def split: option.splits)

lemma wfRefs_setTranscriptHistory:
  "wfRefs (setTranscriptHistory eager sp s) = wfRefs s"
  by (simp add: wfRefs_def setTranscriptHistory_def)

lemma wfRefs_buffers:
  "wfRefs (s\<lparr>currentInputTranscriptionRef := a, currentOutputTranscriptionRef := b,
             currentUserTranscript := c, currentAiTranscript := d\<rparr>) = wfRefs s"
  by (simp add: wfRefs_def)

lemma wfRefs_onTurnComplete:
  "wfRefs s \<Longrightarrow> wfRefs (onTurnComplete eager m s)"
  by (simp add: onTurnComplete_def Let_def wfRefs_buffers wfRefs_setTranscriptHistory)

lemma wfRefs_onInlineAudio:
  assumes "wfRefs s"
  shows "wfRefs (snd (onInlineAudio m now decodeAudio msg s))"
  using assms wfRefs_scheduleAudio [OF assms]
  by (auto simp: onInlineAudio_def split: option.splits)

lemma onmessage_snd:
  "snd (onmessage m eager now decodeAudio msg s) =
     (let r = onInlineAudio m now decodeAudio msg
                (onOutputTranscription m msg (onInputTranscription msg s))
      in if fst r = Returned \<and> turnComplete msg then onTurnComplete eager m (snd r) else snd r)"
  by (simp add: onmessage_def Let_def split: prod.splits Completion.splits)

lemma wfRefs_onmessage:
  assumes "wfRefs s"
  shows "wfRefs (snd (onmessage m eager now decodeAudio msg s))"
proof -
  let ?s2 = "onOutputTranscription m msg (onInputTranscription msg s)"
  have w2: "wfRefs ?s2"
    using assms
    by (simp add: wfRefs_onInputTranscription wfRefs_onOutputTranscription)
  have "wfRefs (snd (onInlineAudio m now decodeAudio msg ?s2))"
    using w2 by (rule wfRefs_onInlineAudio)
  then show ?thesis
    by (simp add: onmessage_snd Let_def wfRefs_onTurnComplete)
qed

lemma wfRefs_onended:
  "wfRefs s \<Longrightarrow> wfRefs (onended k s)"
  by (auto simp: wfRefs_def onended_def Let_def sourcesStarted_def list_all_iff)

lemma wfRefs_render: "wfRefs (render s) = wfRefs s"
  by (simp add: wfRefs_def render_def)

lemma historyQueue_render: "historyQueue (render s) = []"
  by (simp add: render_def)

lemma wfRefs_misc:
  "wfRefs s \<Longrightarrow> wfRefs (clickMode m s)"
  "wfRefs s \<Longrightarrow> wfRefs (handleFileUpload hasFile readThrows s)"
  "wfRefs s \<Longrightarrow> wfRefs (snd (readerOnload response s))"
  "wfRefs s \<Longrightarrow> wfRefs (generateSummary response s)"
  "wfRefs s \<Longrightarrow> wfRefs (closeSummary s)"
  by (auto simp: wfRefs_def clickMode_def handleFileUpload_def readerOnload_def
      generateSummary_def closeSummary_def consoleError_def Let_def
      split: option.splits)

lemma wfRefs_consoleError_status:
  "wfRefs s \<Longrightarrow> wfRefs ((consoleError s)\<lparr>status := error\<rparr>)"
  by (simp add: wfRefs_def consoleError_def)

lemma wfRefs_handle:
  assumes "wfRefs s" "enabled e s"
  shows "wfRefs (snd (handle e s))"
proof (cases e)
  case (Toggle apiKey fault tracks fate)
  then show ?thesis
    using assms
    by (simp add: handle_def handleToggleConversation_def wfRefs_stopSession wfRefs_startSession)
next
  case (Message m eager now decodeAudio msg)
  then show ?thesis using assms by (simp add: handle_def wfRefs_onmessage)
next
  case Open
  then show ?thesis using assms by (simp add: handle_def wfRefs_onopen)
next
  case (RemoteError fate)
  then show ?thesis
    using assms by (simp add: handle_def onerror_def wfRefs_stopSession wfRefs_consoleError_status)
next
  case (RemoteClose fate)
  then show ?thesis using assms by (simp add: handle_def onclose_def wfRefs_stopSession)
next
  case (Ended k)
  then show ?thesis using assms by (simp add: handle_def wfRefs_onended)
next
  case (Unmount fate)
  then show ?thesis using assms by (simp add: handle_def wfRefs_stopSession)
qed (use assms in \<open>simp_all add: handle_def wfRefs_misc\<close>)

lemma reachable_wfRefs: "reachable s \<Longrightarrow> wfRefs s \<and> historyQueue s = []"
proof (induction rule: reachable.induct)
  case reachable_init
  then show ?case
    by (simp add: initialState_def wfRefs_def sourcesStarted_def)
next
  case (reachable_step s e)
  then show ?case
    by (simp add: step_def wfRefs_render historyQueue_render wfRefs_handle)
qed

section \<open>Evaluating the example runs\<close>

lemma reachable_run: "reachable s \<Longrightarrow> runnable es s \<Longrightarrow> reachable (run es s)"
  by (induction es arbitrary: s) (auto intro: reachable_step)

lemmas handler_defs = step_def handle_def enabled_def render_def handleToggleConversation_def
  startSession_def onopen_def onmessage_def onInlineAudio_def onInputTranscription_def
  onOutputTranscription_def
  scheduleAudio_def onTurnComplete_def setTranscriptHistory_def applyUpdate_def appendEntry_def
  bufferOf_def inlineDataOf_def truthy_def toStr_def setAdd_def duration_def Let_def

lemmas example_defs = exampleKey_def exampleDecode_def emptyMessage_def audioMessage_def
  startAndOpen_def twoSources_def str_def initialState_def
  inputMessage_def outputMessage_def turnCompleteMessage_def fragments_def oneTurn_def
  turnAndFragment_def lateMessage_def

lemma run_startAndOpen:
  "run startAndOpen initialState =
     initialState\<lparr>status := listening, isRecording := True,
       sessionPromiseRef := Some conversation, inputAudioContextRef := Some 0,
       outputAudioContextRef := Some 1, mediaStreamRef := Some 1,
       scriptProcessorRef := Some 0, mediaStreamSourceRef := Some 0,
       contexts := [\<lparr>ctxSampleRate = 16000, state = Running\<rparr>,
                    \<lparr>ctxSampleRate = 24000, state = Running\<rparr>],
       effects := [GetUserMedia, Connect conversation]\<rparr>"
  by (simp add: handler_defs example_defs)



lemma runnable_twoSources: "runnable twoSources initialState"
  by (simp add: handler_defs example_defs)


lemma reachable_twoSources: "reachable (run twoSources initialState)"
  by (rule reachable_run [OF reachable_init runnable_twoSources])

lemma run_twoSources:
  "audioSourcesRef (run twoSources initialState) = [0, 1]"
  "status (run twoSources initialState) = listening"
  "inputAudioContextRef (run twoSources initialState) = Some 0"
  "outputAudioContextRef (run twoSources initialState) = Some 1"
  by (simp_all add: handler_defs example_defs)

section \<open>The session controller\<close>





lemma length_closeContext: "length (closeContext j cs) = length cs"
  by (simp add: closeContext_def)



lemma runnable_turnAndFragment: "runnable turnAndFragment initialState"
  by (simp add: handler_defs example_defs)

lemma reachable_turnAndFragment: "reachable (run turnAndFragment initialState)"
  by (rule reachable_run [OF reachable_init runnable_turnAndFragment])

lemma run_turnAndFragment:
  "transcriptHistory (run turnAndFragment initialState) = [\<lparr>speaker = user, text = str ''salam''\<rparr>]"
  "currentInputTranscriptionRef (run turnAndFragment initialState) = str ''next''"
  "currentUserTranscript (run turnAndFragment initialState) = str ''next''"
  "mode (run turnAndFragment initialState) = conversation"
  "isSummarizing (run turnAndFragment initialState) = False"
  by (simp_all add: handler_defs example_defs trim_def isWhiteSpace_def)


lemma render_simps:
  "status (render s) = status s"
  "mode (render s) = mode s"
  "isRecording (render s) = isRecording s"
  "isSummarizing (render s) = isSummarizing s"
  "historyQueue s = [] \<Longrightarrow> transcriptHistory (render s) = transcriptHistory s"
  by (simp_all add: render_def)

lemma stopSession_clears:
  "fst (stopSession fate s) = Returned \<Longrightarrow>
     currentUserTranscript (snd (stopSession fate s)) = [] \<and>
     currentAiTranscript (snd (stopSession fate s)) = [] \<and>
     currentInputTranscriptionRef (snd (stopSession fate s)) = [] \<and>
     currentOutputTranscriptionRef (snd (stopSession fate s)) = []"
  using stoppedState_stopSession [of fate s] by (simp add: stoppedState_def)

lemma isSummarizing_blocks:
  "isSummarizing (closeSessionBlock f s) = isSummarizing s"
  "isSummarizing (stopTracksBlock s) = isSummarizing s"
  "isSummarizing (disconnectProcessorBlock s) = isSummarizing s"
  "isSummarizing (disconnectSourceBlock s) = isSummarizing s"
  "isSummarizing (closeInputBlock s) = isSummarizing s"
  "isSummarizing (snd (closeOutputBlock s)) = isSummarizing s"
  "isSummarizing (clearLiveTranscripts s) = isSummarizing s"
  by (simp_all add: closeSessionBlock_def closeSession_def consoleError_def
      stopTracksBlock_def disconnectProcessorBlock_def disconnectSourceBlock_def
      closeInputBlock_def closeOutputBlock_def clearLiveTranscripts_def
      split: option.splits prod.splits Completion.splits SessionFate.splits)

lemma stopSession_isSummarizing:
  "isSummarizing (snd (stopSession fate s)) = isSummarizing s"
  by (simp add: snd_stopSession Let_def isSummarizing_blocks)

text \<open>
  C10. \<open>stop()\<close> leaves the finalized history as it was, in every state, and queues no
  update of it. In a reachable state it returns and what it clears are the two
  in-progress buffers and the two live transcripts; after the render that follows, the
  history is still the one from before, and a non-empty history in conversation mode
  leaves the Summarize button available.
\<close>

theorem stop_keeps_history:
  "transcriptHistory (snd (stopSession fate s)) = transcriptHistory s \<and>
   historyQueue (snd (stopSession fate s)) = historyQueue s \<and>
   (reachable s \<longrightarrow>
      fst (stopSession fate s) = Returned \<and>
      currentUserTranscript (snd (stopSession fate s)) = [] \<and>
      currentAiTranscript (snd (stopSession fate s)) = [] \<and>
      currentInputTranscriptionRef (snd (stopSession fate s)) = [] \<and>
      currentOutputTranscriptionRef (snd (stopSession fate s)) = [] \<and>
      transcriptHistory (step (Unmount fate) s) = transcriptHistory s \<and>
      (transcriptHistory s \<noteq> [] \<and> mode s = conversation \<and> \<not> isSummarizing s \<longrightarrow>
         enabled (Summarize response) (step (Unmount fate) s)))"
proof -
  have frame: "transcriptHistory (snd (stopSession fate s)) = transcriptHistory s"
    "historyQueue (snd (stopSession fate s)) = historyQueue s"
    by (simp_all add: stopSession_frame)
  have "fst (stopSession fate s) = Returned \<and>
      currentUserTranscript (snd (stopSession fate s)) = [] \<and>
      currentAiTranscript (snd (stopSession fate s)) = [] \<and>
      currentInputTranscriptionRef (snd (stopSession fate s)) = [] \<and>
      currentOutputTranscriptionRef (snd (stopSession fate s)) = [] \<and>
      transcriptHistory (step (Unmount fate) s) = transcriptHistory s \<and>
      (transcriptHistory s \<noteq> [] \<and> mode s = conversation \<and> \<not> isSummarizing s \<longrightarrow>
         enabled (Summarize response) (step (Unmount fate) s))" if r: "reachable s"
  proof -
    have wf: "wfRefs s" and q: "historyQueue s = []"
      using r by (simp_all add: reachable_wfRefs)
    have ret: "fst (stopSession fate s) = Returned"
      using wf by (rule stopSession_releases)
    have st: "step (Unmount fate) s = render (snd (stopSession fate s))"
      by (simp add: step_def handle_def)
    have h: "transcriptHistory (step (Unmount fate) s) = transcriptHistory s"
      unfolding st using q by (simp add: render_simps stopSession_frame)
    have e: "transcriptHistory s \<noteq> [] \<and> mode s = conversation \<and> \<not> isSummarizing s \<longrightarrow>
         enabled (Summarize response) (step (Unmount fate) s)"
      using h unfolding st
      by (simp add: enabled_def render_simps stopSession_frame stopSession_isSummarizing)
    show ?thesis
      using ret stopSession_clears [OF ret] h e by simp
  qed
  then show ?thesis using frame by simp
qed

theorem stop_keeps_history_witness:
  "reachable (run turnAndFragment initialState) \<and>
   transcriptHistory (run turnAndFragment initialState) = [\<lparr>speaker = user, text = str ''salam''\<rparr>] \<and>
   currentInputTranscriptionRef (run turnAndFragment initialState) = str ''next'' \<and>
   currentUserTranscript (run turnAndFragment initialState) = str ''next'' \<and>
   fst (stopSession CloseReturns (run turnAndFragment initialState)) = Returned \<and>
   transcriptHistory (snd (stopSession CloseReturns (run turnAndFragment initialState))) =
     [\<lparr>speaker = user, text = str ''salam''\<rparr>] \<and>
   currentInputTranscriptionRef (snd (stopSession CloseReturns (run turnAndFragment initialState))) = [] \<and>
   currentUserTranscript (snd (stopSession CloseReturns (run turnAndFragment initialState))) = [] \<and>
   transcriptHistory (step (Unmount CloseReturns) (run turnAndFragment initialState)) =
     [\<lparr>speaker = user, text = str ''salam''\<rparr>] \<and>
   enabled (Summarize (Some None)) (step (Unmount CloseReturns) (run turnAndFragment initialState))"
  using stop_keeps_history [of CloseReturns "run turnAndFragment initialState" "Some None"]
    reachable_turnAndFragment
  by (simp add: run_turnAndFragment)

text \<open>
  C2, evaluated. \<open>onerror\<close> logs, sets the status to \<open>error\<close> and calls
  \<open>stopSession\<close>, whose first statements set the status to \<open>idle\<close> in the same run
  of the handler: whatever the state, the status it leaves is \<open>idle\<close>, also after the
  render that follows. In the session of \<open>startAndOpen\<close> the teardown runs and the
  status shown is \<open>idle\<close>, never \<open>error\<close>.
\<close>

theorem onerror_leaves_idle:
  "status (snd (onerror fate s)) = idle \<and>
   status (step (RemoteError fate) s) = idle \<and>
   enabled (RemoteError CloseReturns) (run startAndOpen initialState) \<and>
   status (run startAndOpen initialState) = listening \<and>
   status (step (RemoteError CloseReturns) (run startAndOpen initialState)) \<noteq> error \<and>
   sessionPromiseRef (step (RemoteError CloseReturns) (run startAndOpen initialState)) = None"
  by (simp add: onerror_def stopSession_frame step_def handle_def render_simps enabled_def
      run_startAndOpen render_def)

text \<open>
  C5. With a missing API key (undefined or the empty string) \<open>startSession\<close> logs the
  error, sets the status to \<open>error\<close> and returns: \<open>getUserMedia\<close> is not called, no
  context is created, \<open>connect\<close> is not called, and no ref and no other state changes.
\<close>

theorem start_without_key:
  "\<not> truthy apiKey \<Longrightarrow>
     startSession apiKey fault tracks s = s\<lparr>effects := effects s @ [ConsoleError], status := error\<rparr> \<and>
     status (startSession apiKey fault tracks s) = error \<and>
     effects (startSession apiKey fault tracks s) = effects s @ [ConsoleError] \<and>
     mediaStreamRef (startSession apiKey fault tracks s) = mediaStreamRef s \<and>
     sessionPromiseRef (startSession apiKey fault tracks s) = sessionPromiseRef s \<and>
     contexts (startSession apiKey fault tracks s) = contexts s \<and>
     isRecording (startSession apiKey fault tracks s) = isRecording s"
  by (simp add: startSession_def consoleError_def)

theorem start_without_key_witness:
  "\<not> truthy None \<and> \<not> truthy (Some []) \<and> status initialState = idle \<and>
   status (startSession None NoFault 1 initialState) = error \<and>
   effects (startSession None NoFault 1 initialState) = [ConsoleError] \<and>
   mediaStreamRef (startSession None NoFault 1 initialState) = None \<and>
   sessionPromiseRef (startSession None NoFault 1 initialState) = None \<and>
   status (step (Toggle (Some []) NoFault 1 CloseReturns) initialState) = error \<and>
   effects (step (Toggle (Some []) NoFault 1 CloseReturns) initialState) = [ConsoleError]"
proof -
  have a: "\<not> truthy None" and b: "\<not> truthy (Some [])" by (simp_all add: truthy_def)
  have i: "status initialState = idle" "effects initialState = []"
    "mediaStreamRef initialState = None" "sessionPromiseRef initialState = None"
    "isRecording initialState = False"
    by (simp_all add: initialState_def)
  have c: "step (Toggle (Some []) NoFault 1 CloseReturns) initialState =
             render (startSession (Some []) NoFault 1 initialState)"
    by (simp add: step_def handle_def handleToggleConversation_def i)
  have r: "\<And>s. status (render s) = status s" "\<And>s. effects (render s) = effects s"
    by (simp_all add: render_def)
  note n = start_without_key [OF a, of NoFault 1 initialState]
  note e = start_without_key [OF b, of NoFault 1 initialState]
  show ?thesis
    unfolding c r using n e a b i by simp
qed







section \<open>The transcript history\<close>

lemma trim_Nil: "trim [] = []"
  by (simp add: trim_def)

lemma applyUpdate_simps:
  "applyUpdate s prev (Computed h) = h"
  "applyUpdate s prev (Deferred sp) = prev @ [\<lparr>speaker = sp, text = trim (bufferOf sp s)\<rparr>]"
  by (simp_all add: applyUpdate_def appendEntry_def)

lemma render_cleared:
  assumes "currentInputTranscriptionRef s = []" "currentOutputTranscriptionRef s = []"
  shows "transcriptHistory (render s) =
           foldl (\<lambda>prev u. case u of Computed h \<Rightarrow> h
                                    | Deferred sp \<Rightarrow> prev @ [\<lparr>speaker = sp, text = []\<rparr>])
             (transcriptHistory s) (historyQueue s)"
proof -
  have "applyUpdate s = (\<lambda>prev u. case u of Computed h \<Rightarrow> h
                                    | Deferred sp \<Rightarrow> prev @ [\<lparr>speaker = sp, text = []\<rparr>])"
    using assms
    by (auto simp: fun_eq_iff applyUpdate_simps bufferOf_def trim_Nil
        split: HistoryUpdate.splits Speaker.splits)
  then show ?thesis by (simp add: render_def)
qed


lemma setTranscriptHistory_simps:
  "transcriptHistory (setTranscriptHistory eager sp s) = transcriptHistory s"
  "currentInputTranscriptionRef (setTranscriptHistory eager sp s) = currentInputTranscriptionRef s"
  "currentOutputTranscriptionRef (setTranscriptHistory eager sp s) = currentOutputTranscriptionRef s"
  "historyQueue (setTranscriptHistory eager sp s) =
     (if eager \<and> historyQueue s = []
      then [Computed (transcriptHistory s @ [\<lparr>speaker = sp, text = trim (bufferOf sp s)\<rparr>])]
      else historyQueue s @ [Deferred sp])"
  by (simp_all add: setTranscriptHistory_def appendEntry_def)

lemma onTurnComplete_simps:
  "transcriptHistory (onTurnComplete eager m s) = transcriptHistory s"
  "currentInputTranscriptionRef (onTurnComplete eager m s) = []"
  "currentOutputTranscriptionRef (onTurnComplete eager m s) = []"
  "currentUserTranscript (onTurnComplete eager m s) = []"
  "currentAiTranscript (onTurnComplete eager m s) = []"
  by (simp_all add: onTurnComplete_def Let_def setTranscriptHistory_simps)

lemma onTurnComplete_queue:
  "historyQueue (onTurnComplete eager m s) =
     (let s1 = (if trim (currentInputTranscriptionRef s) \<noteq> []
                then setTranscriptHistory eager user s else s)
      in if trim (currentOutputTranscriptionRef s) \<noteq> [] \<and> m = conversation
         then historyQueue (setTranscriptHistory eager ai s1) else historyQueue s1)"
  by (simp add: onTurnComplete_def Let_def setTranscriptHistory_simps)

lemma render_onTurnComplete:
  assumes q: "historyQueue s = []"
  shows "transcriptHistory (render (onTurnComplete eager m s)) =
           transcriptHistory s @ finalized eager m s"
proof -
  let ?f = "\<lambda>prev u. case u of Computed h \<Rightarrow> h
                             | Deferred sp \<Rightarrow> prev @ [\<lparr>speaker = sp, text = []\<rparr>]"
  have r: "transcriptHistory (render (onTurnComplete eager m s)) =
             foldl ?f (transcriptHistory s) (historyQueue (onTurnComplete eager m s))"
    using render_cleared [of "onTurnComplete eager m s"] by (simp add: onTurnComplete_simps)
  show ?thesis
  proof (cases "trim (currentInputTranscriptionRef s) \<noteq> []")
    case inp: True
    show ?thesis
    proof (cases "trim (currentOutputTranscriptionRef s) \<noteq> [] \<and> m = conversation")
      case True
      then show ?thesis
        using inp q unfolding r onTurnComplete_queue
        by (cases eager)
           (simp_all add: Let_def setTranscriptHistory_simps finalized_def bufferOf_def)
    next
      case False
      then show ?thesis
        using inp q unfolding r onTurnComplete_queue
        by (cases eager)
           (auto simp: Let_def setTranscriptHistory_simps finalized_def bufferOf_def)
    qed
  next
    case inp: False
    show ?thesis
    proof (cases "trim (currentOutputTranscriptionRef s) \<noteq> [] \<and> m = conversation")
      case True
      then show ?thesis
        using inp q unfolding r onTurnComplete_queue
        by (cases eager)
           (simp_all add: Let_def setTranscriptHistory_simps finalized_def bufferOf_def)
    next
      case False
      then show ?thesis
        using inp q unfolding r onTurnComplete_queue
        by (auto simp: Let_def finalized_def)
    qed
  qed
qed


lemma speakers_finalized:
  "map speaker (finalized eager m s) = [] \<or> map speaker (finalized eager m s) = [user] \<or>
   map speaker (finalized eager m s) = [ai] \<or> map speaker (finalized eager m s) = [user, ai]"
proof (cases "trim (currentInputTranscriptionRef s) \<noteq> []")
  case True
  then show ?thesis
    by (cases "trim (currentOutputTranscriptionRef s) \<noteq> [] \<and> m = conversation")
       (simp_all add: finalized_def)
next
  case False
  then show ?thesis
    by (cases "trim (currentOutputTranscriptionRef s) \<noteq> [] \<and> m = conversation")
       (simp_all add: finalized_def)
qed

lemma onInlineAudio_simps:
  "transcriptHistory (snd (onInlineAudio m now d msg s)) = transcriptHistory s"
  "historyQueue (snd (onInlineAudio m now d msg s)) = historyQueue s"
  "isRecording (snd (onInlineAudio m now d msg s)) = isRecording s"
  by (simp_all add: onInlineAudio_def scheduleAudio_simps split: option.splits)


lemma render_message:
  assumes "historyQueue s = []"
  shows "\<exists>new. transcriptHistory (render (snd (onmessage m eager now d msg s))) =
               transcriptHistory s @ new \<and>
           (map speaker new = [] \<or> map speaker new = [user] \<or> map speaker new = [ai] \<or>
            map speaker new = [user, ai])"
proof -
  define r where "r = onInlineAudio m now d msg (onOutputTranscription m msg (onInputTranscription msg s))"
  have q: "historyQueue (snd r) = []" and h: "transcriptHistory (snd r) = transcriptHistory s"
    using assms unfolding r_def
    by (simp_all add: onInlineAudio_simps onOutputTranscription_simps onInputTranscription_simps)
  have sm: "snd (onmessage m eager now d msg s) =
              (if fst r = Returned \<and> turnComplete msg then onTurnComplete eager m (snd r) else snd r)"
    unfolding r_def by (simp add: onmessage_snd Let_def)
  show ?thesis
  proof (cases "fst r = Returned \<and> turnComplete msg")
    case True
    then have e: "snd (onmessage m eager now d msg s) = onTurnComplete eager m (snd r)"
      unfolding sm by simp
    have A: "transcriptHistory (render (snd (onmessage m eager now d msg s))) =
                 transcriptHistory s @ finalized eager m (snd r)"
      unfolding e using render_onTurnComplete [OF q, of eager m] h by simp
    show ?thesis
      by (rule exI [of _ "finalized eager m (snd r)"], rule conjI, rule A, rule speakers_finalized)
  next
    case False
    then have e: "snd (onmessage m eager now d msg s) = snd r"
      unfolding sm by (simp only: if_False)
    have A: "transcriptHistory (render (snd (onmessage m eager now d msg s))) =
                 transcriptHistory s @ []"
      unfolding e using q h by (simp add: render_simps)
    show ?thesis
      by (rule exI [of _ "[]"], rule conjI, rule A) simp
  qed
qed


lemma startSession_history:
  "transcriptHistory (startSession k f n s) = transcriptHistory s"
  "historyQueue (startSession k f n s) = historyQueue s"
  by (simp_all add: startSession_def startFailed_def consoleError_def Let_def)

lemma handle_history:
  assumes "\<And>m eager now d msg. e \<noteq> Message m eager now d msg"
  shows "transcriptHistory (snd (handle e s)) = transcriptHistory s"
    and "historyQueue (snd (handle e s)) = historyQueue s"
  using assms
  by (cases e;
      simp add: handle_def handleToggleConversation_def stopSession_frame startSession_history
        clickMode_def onopen_def onerror_def onclose_def onended_def handleFileUpload_def
        readerOnload_def generateSummary_def closeSummary_def consoleError_def Let_def
        split: option.splits)+


lemma step_history:
  assumes q: "historyQueue s = []"
  shows "\<exists>new. transcriptHistory (step e s) = transcriptHistory s @ new \<and>
           (map speaker new = [] \<or> map speaker new = [user] \<or> map speaker new = [ai] \<or>
            map speaker new = [user, ai])"
proof (cases "\<exists>m eager now d msg. e = Message m eager now d msg")
  case True
  then obtain m eager now d msg where e: "e = Message m eager now d msg" by blast
  have "step e s = render (snd (onmessage m eager now d msg s))"
    by (simp add: step_def handle_def e)
  then show ?thesis using render_message [OF q, of m eager now d msg] by simp
next
  case False
  then have h: "transcriptHistory (snd (handle e s)) = transcriptHistory s \<and>
           historyQueue (snd (handle e s)) = historyQueue s"
    using handle_history [of e s] by blast
  have A: "transcriptHistory (step e s) = transcriptHistory s @ []"
    using h q by (simp add: step_def render_simps)
  show ?thesis
    by (rule exI [of _ "[]"], rule conjI, rule A) simp
qed

lemma historyQueue_step: "historyQueue (step e s) = []"
  by (simp add: step_def historyQueue_render)

lemma run_prefix:
  "historyQueue s = [] \<Longrightarrow> prefix (transcriptHistory s) (transcriptHistory (run es s))"
proof (induction es arbitrary: s)
  case Nil
  then show ?case by simp
next
  case (Cons e es)
  obtain new where "transcriptHistory (step e s) = transcriptHistory s @ new"
    using step_history [OF Cons.prems, of e] by blast
  then have "prefix (transcriptHistory s) (transcriptHistory (step e s))" by simp
  moreover have "prefix (transcriptHistory (step e s)) (transcriptHistory (run es (step e s)))"
    by (rule Cons.IH) (rule historyQueue_step)
  ultimately show ?case by simp
qed

lemma run_append: "run (xs @ ys) s = run ys (run xs s)"
  by (induction xs arbitrary: s) simp_all

lemma runnable_fragments: "runnable fragments initialState"
  by (simp add: handler_defs example_defs)

lemma reachable_fragments: "reachable (run fragments initialState)"
  by (rule reachable_run [OF reachable_init runnable_fragments])

lemma trim_examples:
  "trim (str ''salam alekum'') = str ''salam alekum''"
  "trim (str ''walaikum '') = str ''walaikum''"
  by (simp_all add: trim_def str_def isWhiteSpace_def)

lemma run_fragments:
  "currentInputTranscriptionRef (run fragments initialState) = str ''salam alekum''"
  "currentOutputTranscriptionRef (run fragments initialState) = str ''walaikum ''"
  "transcriptHistory (run fragments initialState) = []"
  "historyQueue (run fragments initialState) = []"
  "sessionPromiseRef (run fragments initialState) = Some conversation"
  "outputAudioContextRef (run fragments initialState) = Some 1"
  by (simp_all add: handler_defs example_defs)


lemma onmessage_turnCompleteMessage:
  "snd (onmessage m eager now d turnCompleteMessage s) = onTurnComplete eager m s"
  by (simp add: onmessage_def onInputTranscription_def onOutputTranscription_def
      onInlineAudio_def inlineDataOf_def turnCompleteMessage_def emptyMessage_def truthy_def)

lemma run_oneTurn:
  "transcriptHistory (run (oneTurn eager) initialState) =
     finalized eager conversation (run fragments initialState)"
proof -
  have "run (oneTurn eager) initialState =
          step (Message conversation eager 0 exampleDecode turnCompleteMessage) (run fragments initialState)"
    by (simp add: oneTurn_def run_append)
  also have "\<dots> = render (onTurnComplete eager conversation (run fragments initialState))"
    by (simp add: step_def handle_def run_fragments onmessage_turnCompleteMessage)
  finally show ?thesis
    using render_onTurnComplete [of "run fragments initialState" eager conversation]
    by (simp add: run_fragments)
qed

lemma finalized_fragments:
  "finalized False conversation (run fragments initialState) =
     [\<lparr>speaker = user, text = []\<rparr>, \<lparr>speaker = ai, text = []\<rparr>]"
  "finalized True conversation (run fragments initialState) =
     [\<lparr>speaker = user, text = str ''salam alekum''\<rparr>, \<lparr>speaker = ai, text = []\<rparr>]"
  by (simp_all add: finalized_def run_fragments trim_examples) (simp_all add: str_def)

text \<open>
  C1, evaluated. A turn in conversation mode: the fragments \<open>salam\<close> and \<open> alekum\<close>
  from the user and \<open>walaikum \<close> from the assistant are in the buffers when the
  turn-complete message arrives. The handler queues one updater per speaker and clears
  both buffers before React runs the queue. The assistant's updater is always run after
  the clearing, so its entry has the empty text and not \<open>walaikum\<close>; the user's entry
  has the trimmed text only when React computes the first update at once (\<open>eager\<close>),
  and the empty text otherwise.
\<close>

theorem turn_complete_texts:
  "currentInputTranscriptionRef (run fragments initialState) = str ''salam alekum'' \<and>
   currentOutputTranscriptionRef (run fragments initialState) = str ''walaikum '' \<and>
   trim (str ''walaikum '') = str ''walaikum'' \<and>
   transcriptHistory (run (oneTurn False) initialState) =
     [\<lparr>speaker = user, text = []\<rparr>, \<lparr>speaker = ai, text = []\<rparr>] \<and>
   transcriptHistory (run (oneTurn True) initialState) =
     [\<lparr>speaker = user, text = str ''salam alekum''\<rparr>, \<lparr>speaker = ai, text = []\<rparr>]"
  by (simp add: run_oneTurn finalized_fragments run_fragments trim_examples)

text \<open>
  C8. From a reachable state, whatever events follow, the history only grows at its
  end: what was finalized stays where it is and the entries of a later turn come after
  those of an earlier one. One event appends nothing, a user entry, an assistant entry,
  or a user entry followed by an assistant entry.
\<close>

theorem history_in_turn_order:
  "reachable s \<Longrightarrow>
     prefix (transcriptHistory s) (transcriptHistory (run es s)) \<and>
     (\<exists>new. transcriptHistory (step e s) = transcriptHistory s @ new \<and>
        (map speaker new = [] \<or> map speaker new = [user] \<or> map speaker new = [ai] \<or>
         map speaker new = [user, ai]))"
proof -
  assume "reachable s"
  then have q: "historyQueue s = []" by (simp add: reachable_wfRefs)
  show ?thesis
    using run_prefix [OF q, of es] step_history [OF q, of e] by simp
qed

theorem history_in_turn_order_witness:
  "reachable (run fragments initialState) \<and>
   transcriptHistory (run fragments initialState) = [] \<and>
   map speaker (transcriptHistory (run (oneTurn True) initialState)) = [user, ai] \<and>
   prefix (transcriptHistory (run (oneTurn True) initialState))
     (transcriptHistory (run (oneTurn True @ [Message conversation True 0 exampleDecode (inputMessage ''next''),
         Message conversation True 0 exampleDecode turnCompleteMessage]) initialState)) \<and>
   (\<exists>new. transcriptHistory (step (Message conversation True 0 exampleDecode turnCompleteMessage)
                (run fragments initialState)) = transcriptHistory (run fragments initialState) @ new \<and>
      (map speaker new = [] \<or> map speaker new = [user] \<or> map speaker new = [ai] \<or>
       map speaker new = [user, ai]))"
proof -
  have r1: "reachable (run (oneTurn True) initialState)"
    unfolding oneTurn_def run_append
    by (simp add: reachable_step [OF reachable_fragments] enabled_def run_fragments)
  note a = history_in_turn_order [OF r1,
      of "[Message conversation True 0 exampleDecode (inputMessage ''next''),
           Message conversation True 0 exampleDecode turnCompleteMessage]" Open]
  note b = history_in_turn_order [OF reachable_fragments, of "[]"
      "Message conversation True 0 exampleDecode turnCompleteMessage"]
  show ?thesis
    using a b reachable_fragments
    by (simp add: run_append run_oneTurn finalized_fragments run_fragments)
qed

section \<open>The playback schedule\<close>

lemma duration_nonneg: "0 \<le> duration b"
  by (simp add: duration_def)

lemma nonOverlapping_snoc:
  "nonOverlapping (ps @ [q]) =
     (nonOverlapping ps \<and> (ps = [] \<or> fst (last ps) + snd (last ps) \<le> fst q))"
  by (induction ps rule: nonOverlapping.induct) auto

lemma nonOverlapping_nth:
  "nonOverlapping ps \<Longrightarrow> Suc n < length ps \<Longrightarrow>
     fst (ps ! n) + snd (ps ! n) \<le> fst (ps ! Suc n)"
proof (induction ps arbitrary: n rule: nonOverlapping.induct)
  case (3 p q ps)
  then show ?case by (cases n) auto
qed simp_all

lemma schedule_append:
  "schedule c (xs @ ys) = schedule c xs @ schedule c ys"
  by (simp add: schedule_def)

lemma schedule_update_stopped:
  assumes "k < length srcs"
  shows "schedule c (srcs[k := (srcs ! k)\<lparr>stopped := True\<rparr>]) = schedule c srcs"
proof -
  have a: "srcs[k := (srcs ! k)\<lparr>stopped := True\<rparr>] =
             take k srcs @ (srcs ! k)\<lparr>stopped := True\<rparr> # drop (Suc k) srcs"
    using assms by (rule upd_conv_take_nth_drop)
  have b: "srcs = take k srcs @ srcs ! k # drop (Suc k) srcs"
    using assms by (rule id_take_nth_drop)
  have "schedule c (take k srcs @ (srcs ! k)\<lparr>stopped := True\<rparr> # drop (Suc k) srcs) =
        schedule c (take k srcs @ srcs ! k # drop (Suc k) srcs)"
    by (simp add: schedule_def)
  then show ?thesis using a b by simp
qed

lemma stopAll_schedule:
  "schedule c (snd (stopAll ks srcs)) = schedule c srcs"
proof (induction ks arbitrary: srcs)
  case Nil
  then show ?case by simp
next
  case (Cons k ks)
  then show ?case by (simp add: schedule_update_stopped)
qed

lemma stopAll_owner:
  "ownerContext ` set (snd (stopAll ks srcs)) = ownerContext ` set srcs"
proof (induction ks arbitrary: srcs)
  case Nil
  then show ?case by simp
next
  case (Cons k ks)
  have "k < length srcs \<Longrightarrow>
        ownerContext ` set (srcs[k := (srcs ! k)\<lparr>stopped := True\<rparr>]) = ownerContext ` set srcs"
    by (metis (no_types, lifting) AudioBufferSourceNode.select_convs(1)
        AudioBufferSourceNode.surjective AudioBufferSourceNode.update_convs(5)
        list_update_id map_update set_map)
  then show ?case using Cons by simp
qed


lemma scheduleInv_cong:
  assumes "sources s' = sources s" "contexts s' = contexts s"
    "nextStartTimeRef s' = nextStartTimeRef s" "outputAudioContextRef s' = outputAudioContextRef s"
  shows "scheduleInv s' = scheduleInv s"
  using assms by (simp add: scheduleInv_def scheduledIn_def)

lemma closeOutputBlock_schedule:
  "schedule c (sources (snd (closeOutputBlock s))) = schedule c (sources s)"
  "ownerContext ` set (sources (snd (closeOutputBlock s))) = ownerContext ` set (sources s)"
  "length (contexts (snd (closeOutputBlock s))) = length (contexts s)"
proof -
  have a: "sources (snd (closeOutputBlock s)) = sources s \<or>
           sources (snd (closeOutputBlock s)) = snd (stopAll (audioSourcesRef s) (sources s))"
    by (auto simp: closeOutputBlock_def split: option.splits prod.splits Completion.splits)
  show "schedule c (sources (snd (closeOutputBlock s))) = schedule c (sources s)"
    using a stopAll_schedule by metis
  show "ownerContext ` set (sources (snd (closeOutputBlock s))) = ownerContext ` set (sources s)"
    using a stopAll_owner by metis
  show "length (contexts (snd (closeOutputBlock s))) = length (contexts s)"
    by (auto simp: closeOutputBlock_def length_closeContext
        split: option.splits prod.splits Completion.splits)
qed

lemma closeInputBlock_length:
  "length (contexts (closeInputBlock s)) = length (contexts s)"
  by (auto simp: closeInputBlock_def length_closeContext split: option.splits)

lemma stopSession_schedule:
  "schedule c (sources (snd (stopSession fate s))) = schedule c (sources s)"
  "ownerContext ` set (sources (snd (stopSession fate s))) = ownerContext ` set (sources s)"
  "length (contexts (snd (stopSession fate s))) = length (contexts s)"
  by (simp_all add: snd_stopSession Let_def closeOutputBlock_schedule closeInputBlock_length
      stop_blocks)

lemma scheduleInv_stopSession:
  assumes "wfRefs s" "scheduleInv s"
  shows "scheduleInv (snd (stopSession fate s))"
proof -
  have o: "outputAudioContextRef (snd (stopSession fate s)) = None"
    using assms(1) by (rule stopSession_releases)
  have "\<forall>x \<in> set (sources (snd (stopSession fate s))).
          ownerContext x < length (contexts (snd (stopSession fate s)))"
  proof
    fix x assume "x \<in> set (sources (snd (stopSession fate s)))"
    then have "ownerContext x \<in> ownerContext ` set (sources s)"
      using stopSession_schedule(2) [of fate s] by blast
    then show "ownerContext x < length (contexts (snd (stopSession fate s)))"
      using assms(2) by (auto simp: scheduleInv_def stopSession_schedule(3))
  qed
  then show ?thesis
    using assms(2) o by (simp add: scheduleInv_def scheduledIn_def stopSession_schedule(1))
qed


lemma schedule_fresh:
  "\<forall>x \<in> set srcs. ownerContext x < n \<Longrightarrow> n \<le> j \<Longrightarrow> schedule j srcs = []"
  by (auto simp: schedule_def filter_empty_conv)

lemma scheduleInv_startSession:
  assumes "scheduleInv s"
  shows "scheduleInv (startSession apiKey fault tracks s)"
proof -
  have own: "\<forall>x \<in> set (sources s). ownerContext x < length (contexts s)"
    using assms by (simp add: scheduleInv_def)
  have f1: "schedule (Suc (length (contexts s))) (sources s) = []"
    using schedule_fresh [OF own, of "Suc (length (contexts s))"] by simp
  have lt: "\<forall>x \<in> set (sources s). ownerContext x < Suc (length (contexts s))"
           "\<forall>x \<in> set (sources s). ownerContext x < Suc (Suc (length (contexts s)))"
    using own by auto
  show ?thesis
    using assms f1 lt
    by (cases fault)
       (simp_all add: scheduleInv_def scheduledIn_def startSession_def startFailed_def
          consoleError_def Let_def)
qed

lemma schedule_snoc:
  "schedule c (srcs @ [x]) =
     schedule c srcs @ (if ownerContext x = c \<and> started x
                        then [(startTime x, duration (buffer x))] else [])"
  by (simp add: schedule_def)

lemma last_le:
  "\<forall>p \<in> set ps. fst p + snd p \<le> (t::real) \<Longrightarrow> ps \<noteq> [] \<Longrightarrow> fst (last ps) + snd (last ps) \<le> t"
  by simp

lemma scheduleInv_scheduleAudio:
  assumes inv: "scheduleInv s" and out: "outputAudioContextRef s = Some c"
    and lt: "c < length (contexts s)"
  shows "scheduleInv (snd (scheduleAudio decodeAudio now b64 c s))"
proof -
  define t where "t = max (nextStartTimeRef s) now"
  define s' where "s' = snd (scheduleAudio decodeAudio now b64 c s)"
  have nov: "\<And>c'. nonOverlapping (schedule c' (sources s))"
    and own: "\<forall>x \<in> set (sources s). ownerContext x < length (contexts s)"
    and cur: "\<forall>p \<in> set (schedule c (sources s)). fst p + snd p \<le> nextStartTimeRef s"
    using inv out by (auto simp: scheduleInv_def scheduledIn_def)
  have le: "\<forall>p \<in> set (schedule c (sources s)). fst p + snd p \<le> t"
    using cur unfolding t_def by auto
  have frame: "contexts s' = contexts s" "outputAudioContextRef s' = Some c"
    unfolding s'_def using out by (simp_all add: scheduleAudio_simps)
  consider (none) "decodeAudio b64 = None"
    | (range) ab where "decodeAudio b64 = Some ab" "t < 0"
    | (ok) ab where "decodeAudio b64 = Some ab" "\<not> t < 0"
    by (cases "decodeAudio b64") auto
  then have "(\<forall>c'. nonOverlapping (schedule c' (sources s'))) \<and>
             (\<forall>x \<in> set (sources s'). ownerContext x < length (contexts s)) \<and>
             (\<forall>p \<in> set (schedule c (sources s')). fst p + snd p \<le> nextStartTimeRef s')"
  proof cases
    case none
    then have "sources s' = sources s" "nextStartTimeRef s' = t"
      unfolding s'_def t_def by (simp_all add: scheduleAudio_def)
    then show ?thesis using nov own le by simp
  next
    case range
    then have "sources s' = sources s @ [\<lparr>ownerContext = c, buffer = ab, startTime = 0,
                   started = False, stopped = False\<rparr>]" "nextStartTimeRef s' = t"
      unfolding s'_def t_def by (auto simp: scheduleAudio_def Let_def)
    then show ?thesis using nov own le lt by (simp add: schedule_snoc)
  next
    case ok
    then have src: "sources s' = sources s @ [\<lparr>ownerContext = c, buffer = ab, startTime = t,
                   started = True, stopped = False\<rparr>]"
      and nxt: "nextStartTimeRef s' = t + duration ab"
      unfolding s'_def t_def by (auto simp: scheduleAudio_def Let_def)
    have sch: "\<And>c'. schedule c' (sources s') =
                 schedule c' (sources s) @ (if c = c' then [(t, duration ab)] else [])"
      unfolding src by (auto simp: schedule_snoc)
    have novc: "nonOverlapping (schedule c (sources s) @ [(t, duration ab)])"
      using nov [of c] le by (auto simp: nonOverlapping_snoc intro: last_le)
    have 1: "\<forall>c'. nonOverlapping (schedule c' (sources s'))"
      using nov novc by (simp add: sch)
    have 2: "\<forall>x \<in> set (sources s'). ownerContext x < length (contexts s)"
      using own lt by (simp add: src)
    have 3: "\<forall>p \<in> set (schedule c (sources s')). fst p + snd p \<le> nextStartTimeRef s'"
      using le duration_nonneg [of ab] by (fastforce simp: sch nxt)
    show ?thesis using 1 2 3 by blast
  qed
  then show ?thesis
    unfolding s'_def [symmetric] by (simp add: scheduleInv_def scheduledIn_def frame)
qed


lemma scheduleInv_onInlineAudio:
  assumes "wfRefs s" "scheduleInv s"
  shows "scheduleInv (snd (onInlineAudio m now decodeAudio msg s))"
proof -
  have "\<And>c b. outputAudioContextRef s = Some c \<Longrightarrow>
          scheduleInv (snd (scheduleAudio decodeAudio now b c s))"
    using assms by (auto simp: wfRefs_def ctxOpen_def intro: scheduleInv_scheduleAudio)
  then show ?thesis
    using assms(2) by (auto simp: onInlineAudio_def split: option.splits)
qed

lemma onTurnComplete_schedule:
  "sources (onTurnComplete eager m s) = sources s"
  "contexts (onTurnComplete eager m s) = contexts s"
  "nextStartTimeRef (onTurnComplete eager m s) = nextStartTimeRef s"
  "outputAudioContextRef (onTurnComplete eager m s) = outputAudioContextRef s"
  by (simp_all add: onTurnComplete_def Let_def setTranscriptHistory_def)

lemma scheduleInv_onmessage:
  assumes "wfRefs s" "scheduleInv s"
  shows "scheduleInv (snd (onmessage m eager now decodeAudio msg s))"
proof -
  let ?s2 = "onOutputTranscription m msg (onInputTranscription msg s)"
  have w2: "wfRefs ?s2"
    using assms
    by (simp add: wfRefs_onInputTranscription wfRefs_onOutputTranscription)
  have i2: "scheduleInv ?s2"
    using assms(2)
    by (simp add: scheduleInv_cong [of ?s2 s] onInputTranscription_simps
        onOutputTranscription_simps)
  have "scheduleInv (snd (onInlineAudio m now decodeAudio msg ?s2))"
    using w2 i2 by (rule scheduleInv_onInlineAudio)
  then show ?thesis
    by (simp add: onmessage_snd Let_def scheduleInv_cong [OF onTurnComplete_schedule])
qed

lemma scheduleInv_misc:
  "scheduleInv (snd (onopen s)) = scheduleInv s"
  "scheduleInv (onended k s) = scheduleInv s"
  "scheduleInv (clickMode m s) = scheduleInv s"
  "scheduleInv (handleFileUpload hasFile readThrows s) = scheduleInv s"
  "scheduleInv (snd (readerOnload response s)) = scheduleInv s"
  "scheduleInv (generateSummary response s) = scheduleInv s"
  "scheduleInv (closeSummary s) = scheduleInv s"
  "scheduleInv (render s) = scheduleInv s"
  "scheduleInv ((consoleError s)\<lparr>status := error\<rparr>) = scheduleInv s"
  by (rule scheduleInv_cong;
      simp add: onopen_def onended_def clickMode_def handleFileUpload_def readerOnload_def
        generateSummary_def closeSummary_def render_def consoleError_def Let_def
        split: option.splits prod.splits)+

lemma scheduleInv_handle:
  assumes "wfRefs s" "scheduleInv s" "enabled e s"
  shows "scheduleInv (snd (handle e s))"
proof (cases e)
  case (Toggle apiKey fault tracks fate)
  then show ?thesis
    using assms
    by (simp add: handle_def handleToggleConversation_def scheduleInv_stopSession
        scheduleInv_startSession)
next
  case (Message m eager now decodeAudio msg)
  then show ?thesis using assms by (simp add: handle_def scheduleInv_onmessage)
next
  case (RemoteError fate)
  then show ?thesis
    using assms
    by (simp add: handle_def onerror_def scheduleInv_stopSession wfRefs_consoleError_status
        scheduleInv_misc)
next
  case (RemoteClose fate)
  then show ?thesis using assms by (simp add: handle_def onclose_def scheduleInv_stopSession)
next
  case (Unmount fate)
  then show ?thesis using assms by (simp add: handle_def scheduleInv_stopSession)
qed (use assms in \<open>simp_all add: handle_def scheduleInv_misc\<close>)

lemma reachable_scheduleInv: "reachable s \<Longrightarrow> scheduleInv s"
proof (induction rule: reachable.induct)
  case reachable_init
  then show ?case
    by (simp add: initialState_def scheduleInv_def scheduledIn_def schedule_def)
next
  case (reachable_step s e)
  then show ?case
    by (simp add: step_def scheduleInv_misc scheduleInv_handle reachable_wfRefs)
qed

lemma run_twoSources_schedule:
  "scheduledIn 1 (run twoSources initialState) = [(1/2, 1), (3/2, 1)]"
  by (simp add: handler_defs example_defs scheduledIn_def schedule_def)

text \<open>
  C3. In every reachable state and for every audio context, consecutive entries of the
  context's playback schedule do not overlap: the source scheduled next starts no
  earlier than the start of the one before it plus that one's duration. The sources of
  one session are the schedule of the session's output context.
\<close>

theorem playback_never_overlaps:
  "reachable s \<Longrightarrow> Suc n < length (scheduledIn c s) \<Longrightarrow>
     fst (scheduledIn c s ! n) + snd (scheduledIn c s ! n) \<le> fst (scheduledIn c s ! Suc n)"
proof -
  assume r: "reachable s" and n: "Suc n < length (scheduledIn c s)"
  have "nonOverlapping (scheduledIn c s)"
    using reachable_scheduleInv [OF r] by (simp add: scheduleInv_def)
  then show ?thesis using n by (rule nonOverlapping_nth)
qed

theorem playback_never_overlaps_witness:
  "reachable (run twoSources initialState) \<and>
   outputAudioContextRef (run twoSources initialState) = Some 1 \<and>
   scheduledIn 1 (run twoSources initialState) = [(1/2, 1), (3/2, 1)] \<and>
   Suc 0 < length (scheduledIn 1 (run twoSources initialState)) \<and>
   fst (scheduledIn 1 (run twoSources initialState) ! 0) +
     snd (scheduledIn 1 (run twoSources initialState) ! 0) \<le>
   fst (scheduledIn 1 (run twoSources initialState) ! Suc 0)"
proof -
  have n: "Suc 0 < length (scheduledIn 1 (run twoSources initialState))"
    unfolding run_twoSources_schedule by simp
  note th = playback_never_overlaps [OF reachable_twoSources n]
  have o: "outputAudioContextRef (run twoSources initialState) = Some 1"
    by (rule run_twoSources(4))
  show ?thesis
    by (intro conjI reachable_twoSources o run_twoSources_schedule n th)
qed

end
